theory Spec2Isabelle
  imports Main
begin

section \<open>The schema\<close>

text \<open>
  The tables of the schema (\<^verbatim>\<open>defineSchema\<close>): \<^verbatim>\<open>apiKeys\<close>, \<^verbatim>\<open>servers\<close> and
  \<^verbatim>\<open>deployments\<close>. Document ids are numbered, user ids are strings
  (\<^verbatim>\<open>user._id\<close>), \<^verbatim>\<open>v.optional\<close> fields are options, \<^verbatim>\<open>Date.now()\<close> is an integer.
  Field names carry a one-letter prefix for their table (\<open>s_\<close>, \<open>d_\<close>, \<open>k_\<close>), since
  several tables share the names \<^verbatim>\<open>userId\<close>, \<^verbatim>\<open>name\<close>, \<^verbatim>\<open>status\<close>.
\<close>

type_synonym user_id = string
text \<open>
  An id carries the table of its document in its type, as the argument validators
  \<^verbatim>\<open>v.id("servers")\<close> and \<^verbatim>\<open>v.id("deployments")\<close> demand: a call with the id of another
  table, which the validator refuses before the handler runs, is not a term here.
\<close>

datatype server_id = ServerId (server_num: nat)

datatype deployment_id = DeploymentId (deployment_num: nat)

datatype keys_id = KeysId (keys_num: nat)

datatype server_status = Creating | Installing | Configuring | Ready | Error | Deleting

datatype deployment_status = Deploying | Running | Stopped | ErrorD

record server =
  s_userId :: user_id
  s_hetznerServerId :: string
  s_name :: string
  s_ipAddress :: "string option"
  s_status :: server_status
  s_region :: string
  s_sshKeyId :: "string option"
  s_dokployInstalled :: bool
  s_createdAt :: int
  s_errorMessage :: "string option"

record deployment =
  d_userId :: user_id
  d_serverId :: server_id
  d_name :: string
  d_domain :: "string option"
  d_status :: deployment_status
  d_wordpressAdminUser :: string
  d_wordpressAdminPass :: string
  d_sslEnabled :: bool
  d_createdAt :: int
  d_errorMessage :: "string option"

record api_keys =
  k_userId :: user_id
  k_hetznerApiKey :: "string option"
  k_dokployApiKey :: "string option"
  k_dokployUrl :: "string option"
  k_isHetznerValid :: bool
  k_isDokployValid :: bool
  k_lastValidated :: "int option"

text \<open>The functions that \<^verbatim>\<open>ctx.scheduler.runAfter\<close> is given, with their argument.\<close>

datatype job =
  ProvisionServer server_id
  | DestroyServer server_id
  | DeployWordPress deployment_id
  | DestroyWordPress deployment_id

text \<open>
  The store: each table lists its documents with their ids in creation order, the
  scheduler's queue holds the jobs not yet run, and \<open>nextId\<close> is the number of the id that
  the next \<^verbatim>\<open>ctx.db.insert\<close> hands out.
\<close>

record db =
  servers :: "(server_id \<times> server) list"
  deployments :: "(deployment_id \<times> deployment) list"
  apiKeys :: "(keys_id \<times> api_keys) list"
  scheduled :: "job list"
  nextId :: nat

section \<open>Errors and the primitives of the platform\<close>

text \<open>
  Every \<^verbatim>\<open>throw new Error(...)\<close> of the handlers is a constructor; \<open>NotUnique\<close> is what
  \<^verbatim>\<open>.unique()\<close> raises on more than one match and \<open>NonexistentDocument\<close> what
  \<^verbatim>\<open>ctx.db.delete\<close> raises on an id that has no document.
\<close>

datatype failure =
  NotAuthenticated
  | HetznerKeyRequired
  | ServerAccessDenied
  | ServerNotReady
  | DokployKeyRequired
  | DeploymentAccessDenied
  | DeploymentNotFound
  | NotUnique
  | NonexistentDocument

fun message :: "failure \<Rightarrow> string" where
  "message NotAuthenticated = ''Not authenticated''"
| "message HetznerKeyRequired = ''Valid Hetzner API key required''"
| "message ServerAccessDenied = ''Server not found or access denied''"
| "message ServerNotReady = ''Server is not ready for deployments''"
| "message DokployKeyRequired = ''Valid Dokploy API key required''"
| "message DeploymentAccessDenied = ''Deployment not found or access denied''"
| "message DeploymentNotFound = ''Deployment not found''"
| "message NotUnique = ''unique() query returned more than one result''"
| "message NonexistentDocument = ''Delete on nonexistent document ID''"

text \<open>The result of \<^verbatim>\<open>authComponent.getAuthUser(ctx)\<close>: the id of the user, or nothing.\<close>

type_synonym auth = "user_id option"

definition db_get :: "('k \<times> 'a) list \<Rightarrow> 'k \<Rightarrow> 'a option" where
  "db_get t i = map_of t i"

definition db_patch :: "('k \<times> 'a) list \<Rightarrow> 'k \<Rightarrow> ('a \<Rightarrow> 'a) \<Rightarrow> ('k \<times> 'a) list" where
  "db_patch t i f = map (\<lambda>(k, v). if k = i then (k, f v) else (k, v)) t"

definition db_delete :: "('k \<times> 'a) list \<Rightarrow> 'k \<Rightarrow> failure + ('k \<times> 'a) list" where
  "db_delete t i =
     (case map_of t i of
        None \<Rightarrow> Inl NonexistentDocument
      | Some v \<Rightarrow> Inr (filter (\<lambda>(k, v). k \<noteq> i) t))"

text \<open>\<^verbatim>\<open>.withIndex("by_user", q => q.eq("userId", u)).collect()\<close>\<close>

definition by_user :: "('a \<Rightarrow> user_id) \<Rightarrow> user_id \<Rightarrow> ('k \<times> 'a) list \<Rightarrow> ('k \<times> 'a) list" where
  "by_user owner u t = filter (\<lambda>(k, v). owner v = u) t"

fun unique :: "'a list \<Rightarrow> failure + 'a option" where
  "unique [] = Inr None"
| "unique [x] = Inr (Some x)"
| "unique (x # y # zs) = Inl NotUnique"

definition schedule :: "job \<Rightarrow> db \<Rightarrow> db" where
  "schedule j s = s\<lparr>scheduled := scheduled s @ [j]\<rparr>"

section \<open>servers.ts\<close>

subsection \<open>Queries\<close>

record server_row =
  r_id :: server_id
  r_name :: string
  r_ipAddress :: "string option"
  r_status :: server_status
  r_region :: string
  r_dokployInstalled :: bool
  r_createdAt :: int
  r_errorMessage :: "string option"

definition server_row_of :: "server_id \<times> server \<Rightarrow> server_row" where
  "server_row_of p =
     \<lparr>r_id = fst p, r_name = s_name (snd p), r_ipAddress = s_ipAddress (snd p),
      r_status = s_status (snd p), r_region = s_region (snd p),
      r_dokployInstalled = s_dokployInstalled (snd p), r_createdAt = s_createdAt (snd p),
      r_errorMessage = s_errorMessage (snd p)\<rparr>"

definition getUserServers :: "auth \<Rightarrow> db \<Rightarrow> failure + server_row list" where
  "getUserServers a s =
     (case a of
        None \<Rightarrow> Inl NotAuthenticated
      | Some u \<Rightarrow> Inr (map server_row_of (by_user s_userId u (servers s))))"

record server_detail =
  g_id :: server_id
  g_name :: string
  g_hetznerServerId :: string
  g_ipAddress :: "string option"
  g_status :: server_status
  g_region :: string
  g_dokployInstalled :: bool
  g_createdAt :: int
  g_errorMessage :: "string option"

definition server_detail_of :: "server_id \<Rightarrow> server \<Rightarrow> server_detail" where
  "server_detail_of i v =
     \<lparr>g_id = i, g_name = s_name v, g_hetznerServerId = s_hetznerServerId v,
      g_ipAddress = s_ipAddress v, g_status = s_status v, g_region = s_region v,
      g_dokployInstalled = s_dokployInstalled v, g_createdAt = s_createdAt v,
      g_errorMessage = s_errorMessage v\<rparr>"

definition getServer :: "auth \<Rightarrow> server_id \<Rightarrow> db \<Rightarrow> failure + server_detail option" where
  "getServer a serverId s =
     (case a of
        None \<Rightarrow> Inl NotAuthenticated
      | Some u \<Rightarrow>
          (case db_get (servers s) serverId of
             None \<Rightarrow> Inr None
           | Some v \<Rightarrow>
               if s_userId v \<noteq> u then Inr None
               else Inr (Some (server_detail_of serverId v))))"

subsection \<open>Mutations\<close>

text \<open>
  A mutation returns the error it throws, or its return value and the store it leaves.
  Every handler throws before its first write, so an error leaves the store as it was.
  \<open>now\<close> is the value of \<^verbatim>\<open>Date.now()\<close>.
\<close>

definition createServer :: "auth \<Rightarrow> string \<Rightarrow> string \<Rightarrow> int \<Rightarrow> db \<Rightarrow> failure + (server_id \<times> db)" where
  "createServer a name region now s =
     (case a of
        None \<Rightarrow> Inl NotAuthenticated
      | Some u \<Rightarrow>
          (case unique (by_user k_userId u (apiKeys s)) of
             Inl e \<Rightarrow> Inl e
           | Inr keys \<Rightarrow>
               if \<not> (case keys of None \<Rightarrow> False | Some k \<Rightarrow> k_isHetznerValid (snd k))
               then Inl HetznerKeyRequired
               else
                 let serverId = ServerId (nextId s);
                     doc = \<lparr>s_userId = u, s_hetznerServerId = [], s_name = name,
                            s_ipAddress = None, s_status = Creating, s_region = region,
                            s_sshKeyId = None, s_dokployInstalled = False,
                            s_createdAt = now, s_errorMessage = None\<rparr>
                 in Inr (serverId,
                      schedule (ProvisionServer serverId)
                        (s\<lparr>servers := servers s @ [(serverId, doc)],
                           nextId := Suc (nextId s)\<rparr>))))"

record update_server_args =
  a_serverId :: server_id
  a_status :: server_status
  a_ipAddress :: "string option"
  a_hetznerServerId :: "string option"
  a_errorMessage :: "string option"
  a_dokployInstalled :: "bool option"

definition server_updates :: "update_server_args \<Rightarrow> server \<Rightarrow> server" where
  "server_updates args v =
     v\<lparr>s_status := a_status args,
       s_ipAddress := (case a_ipAddress args of None \<Rightarrow> s_ipAddress v | Some ip \<Rightarrow> Some ip),
       s_hetznerServerId :=
         (case a_hetznerServerId args of None \<Rightarrow> s_hetznerServerId v | Some h \<Rightarrow> h),
       s_errorMessage :=
         (case a_errorMessage args of None \<Rightarrow> s_errorMessage v | Some m \<Rightarrow> Some m),
       s_dokployInstalled :=
         (case a_dokployInstalled args of None \<Rightarrow> s_dokployInstalled v | Some b \<Rightarrow> b)\<rparr>"

definition updateServerStatus :: "auth \<Rightarrow> update_server_args \<Rightarrow> db \<Rightarrow> failure + db" where
  "updateServerStatus a args s =
     (case a of
        None \<Rightarrow> Inl NotAuthenticated
      | Some u \<Rightarrow>
          (case db_get (servers s) (a_serverId args) of
             None \<Rightarrow> Inl ServerAccessDenied
           | Some v \<Rightarrow>
               if s_userId v \<noteq> u then Inl ServerAccessDenied
               else Inr (s\<lparr>servers :=
                            db_patch (servers s) (a_serverId args) (server_updates args)\<rparr>)))"

definition deleteServer :: "auth \<Rightarrow> server_id \<Rightarrow> db \<Rightarrow> failure + db" where
  "deleteServer a serverId s =
     (case a of
        None \<Rightarrow> Inl NotAuthenticated
      | Some u \<Rightarrow>
          (case db_get (servers s) serverId of
             None \<Rightarrow> Inl ServerAccessDenied
           | Some v \<Rightarrow>
               if s_userId v \<noteq> u then Inl ServerAccessDenied
               else Inr (schedule (DestroyServer serverId)
                          (s\<lparr>servers :=
                               db_patch (servers s) serverId (\<lambda>v. v\<lparr>s_status := Deleting\<rparr>)\<rparr>))))"

definition deleteServerRecord :: "server_id \<Rightarrow> db \<Rightarrow> failure + db" where
  "deleteServerRecord serverId s =
     (case db_delete (servers s) serverId of
        Inl e \<Rightarrow> Inl e
      | Inr t \<Rightarrow> Inr (s\<lparr>servers := t\<rparr>))"

text \<open>The store after a mutation call: an error leaves it as it was.\<close>

definition store_after :: "db \<Rightarrow> failure + ('a \<times> db) \<Rightarrow> db" where
  "store_after s r = (case r of Inl e \<Rightarrow> s | Inr p \<Rightarrow> snd p)"

subsection \<open>Actions\<close>

text \<open>
  An action is not a transaction: it calls queries and mutations one after the other,
  sleeps, fetches and logs. It returns the error it ends with (or nothing), the store
  it leaves, and the trace of what it did, in order. \<open>Run\<close> records a call of
  \<^verbatim>\<open>ctx.runQuery\<close> or \<^verbatim>\<open>ctx.runMutation\<close> with the function it names.
\<close>

record update_deployment_args =
  u_deploymentId :: deployment_id
  u_status :: deployment_status
  u_errorMessage :: "string option"

record http_request =
  q_url :: string
  q_method :: string
  q_authorization :: string

datatype call =
  UpdateServerStatus update_server_args
  | GetServer server_id
  | DeleteServerRecord server_id
  | GetDeployment deployment_id
  | UpdateDeploymentStatus update_deployment_args
  | DeleteDeploymentRecord deployment_id

datatype event =
  Run call
  | Sleep nat
  | ConsoleError string
  | Fetch http_request

type_synonym action_result = "(failure + unit) \<times> db \<times> event list"

text \<open>The \<^verbatim>\<open>catch\<close> block of \<^verbatim>\<open>provisionServer\<close>, entered with the error caught, the
  store and the trace so far.\<close>

definition provisionServer_catch :: "auth \<Rightarrow> server_id \<Rightarrow> failure \<Rightarrow> db \<Rightarrow> event list \<Rightarrow> action_result" where
  "provisionServer_catch a serverId e s tr =
     (let args = \<lparr>a_serverId = serverId, a_status = Error, a_ipAddress = None,
                  a_hetznerServerId = None, a_errorMessage = Some (message e),
                  a_dokployInstalled = None\<rparr>
      in case updateServerStatus a args s of
           Inl e' \<Rightarrow> (Inl e', s, tr @ [Run (UpdateServerStatus args)])
         | Inr s' \<Rightarrow>
             (Inr (), schedule (DestroyServer serverId) s',
              tr @ [Run (UpdateServerStatus args)]))"

definition provisionServer :: "auth \<Rightarrow> server_id \<Rightarrow> db \<Rightarrow> action_result" where
  "provisionServer a serverId s =
     (let step1 = \<lparr>a_serverId = serverId, a_status = Installing,
                   a_ipAddress = Some ''192.168.1.100'',
                   a_hetznerServerId = Some ''placeholder-server-id'',
                   a_errorMessage = None, a_dokployInstalled = None\<rparr>;
          step3 = \<lparr>a_serverId = serverId, a_status = Configuring, a_ipAddress = None,
                   a_hetznerServerId = None, a_errorMessage = None,
                   a_dokployInstalled = None\<rparr>;
          step4 = \<lparr>a_serverId = serverId, a_status = Ready, a_ipAddress = None,
                   a_hetznerServerId = None, a_errorMessage = None,
                   a_dokployInstalled = Some True\<rparr>
      in case updateServerStatus a step1 s of
           Inl e \<Rightarrow> provisionServer_catch a serverId e s [Run (UpdateServerStatus step1)]
         | Inr s1 \<Rightarrow>
             (case updateServerStatus a step3 s1 of
                Inl e \<Rightarrow>
                  provisionServer_catch a serverId e s1
                    [Run (UpdateServerStatus step1), Sleep 1000,
                     Run (UpdateServerStatus step3)]
              | Inr s2 \<Rightarrow>
                  (case updateServerStatus a step4 s2 of
                     Inl e \<Rightarrow>
                       provisionServer_catch a serverId e s2
                         [Run (UpdateServerStatus step1), Sleep 1000,
                          Run (UpdateServerStatus step3), Run (UpdateServerStatus step4)]
                   | Inr s3 \<Rightarrow>
                       (Inr (), s3,
                        [Run (UpdateServerStatus step1), Sleep 1000,
                         Run (UpdateServerStatus step3),
                         Run (UpdateServerStatus step4)]))))"

text \<open>The \<^verbatim>\<open>catch\<close> block of \<^verbatim>\<open>destroyServer\<close>: log, then delete the record all the same.\<close>

definition destroyServer_catch :: "server_id \<Rightarrow> db \<Rightarrow> event list \<Rightarrow> action_result" where
  "destroyServer_catch serverId s tr =
     (case deleteServerRecord serverId s of
        Inl e' \<Rightarrow>
          (Inl e', s,
           tr @ [ConsoleError ''Error destroying server:'', Run (DeleteServerRecord serverId)])
      | Inr s' \<Rightarrow>
          (Inr (), s',
           tr @ [ConsoleError ''Error destroying server:'', Run (DeleteServerRecord serverId)]))"

definition destroyServer :: "auth \<Rightarrow> server_id \<Rightarrow> db \<Rightarrow> action_result" where
  "destroyServer a serverId s =
     (case getServer a serverId s of
        Inl e \<Rightarrow> destroyServer_catch serverId s [Run (GetServer serverId)]
      | Inr None \<Rightarrow> (Inr (), s, [Run (GetServer serverId)])
      | Inr (Some v) \<Rightarrow>
          (case deleteServerRecord serverId s of
             Inl e \<Rightarrow>
               destroyServer_catch serverId s
                 [Run (GetServer serverId), Run (DeleteServerRecord serverId)]
           | Inr s' \<Rightarrow>
               (Inr (), s', [Run (GetServer serverId), Run (DeleteServerRecord serverId)])))"

section \<open>The deployments module\<close>

subsection \<open>Queries\<close>

record deployment_row =
  w_id :: deployment_id
  w_serverId :: server_id
  w_serverName :: string
  w_name :: string
  w_domain :: "string option"
  w_status :: deployment_status
  w_wordpressAdminUser :: string
  w_sslEnabled :: bool
  w_createdAt :: int
  w_errorMessage :: "string option"

text \<open>\<^verbatim>\<open>server?.name || "Unknown Server"\<close>: a missing server and an empty name both give
  the default.\<close>

definition serverName :: "db \<Rightarrow> server_id \<Rightarrow> string" where
  "serverName s serverId =
     (case db_get (servers s) serverId of
        None \<Rightarrow> ''Unknown Server''
      | Some v \<Rightarrow> if s_name v = [] then ''Unknown Server'' else s_name v)"

definition deployment_row_of :: "db \<Rightarrow> deployment_id \<times> deployment \<Rightarrow> deployment_row" where
  "deployment_row_of s p =
     \<lparr>w_id = fst p, w_serverId = d_serverId (snd p),
      w_serverName = serverName s (d_serverId (snd p)), w_name = d_name (snd p),
      w_domain = d_domain (snd p), w_status = d_status (snd p),
      w_wordpressAdminUser = d_wordpressAdminUser (snd p),
      w_sslEnabled = d_sslEnabled (snd p), w_createdAt = d_createdAt (snd p),
      w_errorMessage = d_errorMessage (snd p)\<rparr>"

definition getUserDeployments :: "auth \<Rightarrow> db \<Rightarrow> failure + deployment_row list" where
  "getUserDeployments a s =
     (case a of
        None \<Rightarrow> Inl NotAuthenticated
      | Some u \<Rightarrow> Inr (map (deployment_row_of s) (by_user d_userId u (deployments s))))"

definition getDeployment :: "auth \<Rightarrow> deployment_id \<Rightarrow> db \<Rightarrow> failure + deployment_row option" where
  "getDeployment a deploymentId s =
     (case a of
        None \<Rightarrow> Inl NotAuthenticated
      | Some u \<Rightarrow>
          (case db_get (deployments s) deploymentId of
             None \<Rightarrow> Inr None
           | Some d \<Rightarrow>
               if d_userId d \<noteq> u then Inr None
               else Inr (Some (deployment_row_of s (deploymentId, d)))))"

subsection \<open>Mutations\<close>

record create_deployment_args =
  c_serverId :: server_id
  c_name :: string
  c_domain :: "string option"
  c_wordpressAdminUser :: string
  c_wordpressAdminPass :: string
  c_enableSsl :: bool

definition createDeployment :: "auth \<Rightarrow> create_deployment_args \<Rightarrow> int \<Rightarrow> db \<Rightarrow> failure + (deployment_id \<times> db)" where
  "createDeployment a args now s =
     (case a of
        None \<Rightarrow> Inl NotAuthenticated
      | Some u \<Rightarrow>
          (case db_get (servers s) (c_serverId args) of
             None \<Rightarrow> Inl ServerAccessDenied
           | Some v \<Rightarrow>
               if s_userId v \<noteq> u then Inl ServerAccessDenied
               else if s_status v \<noteq> Ready \<or> \<not> s_dokployInstalled v then Inl ServerNotReady
               else
                 (case unique (by_user k_userId u (apiKeys s)) of
                    Inl e \<Rightarrow> Inl e
                  | Inr keys \<Rightarrow>
                      if \<not> (case keys of None \<Rightarrow> False | Some k \<Rightarrow> k_isDokployValid (snd k))
                      then Inl DokployKeyRequired
                      else
                        let deploymentId = DeploymentId (nextId s);
                            doc = \<lparr>d_userId = u, d_serverId = c_serverId args,
                                   d_name = c_name args, d_domain = c_domain args,
                                   d_status = Deploying,
                                   d_wordpressAdminUser = c_wordpressAdminUser args,
                                   d_wordpressAdminPass = c_wordpressAdminPass args,
                                   d_sslEnabled = c_enableSsl args, d_createdAt = now,
                                   d_errorMessage = None\<rparr>
                        in Inr (deploymentId,
                             schedule (DeployWordPress deploymentId)
                               (s\<lparr>deployments := deployments s @ [(deploymentId, doc)],
                                  nextId := Suc (nextId s)\<rparr>)))))"

definition deployment_updates :: "update_deployment_args \<Rightarrow> deployment \<Rightarrow> deployment" where
  "deployment_updates args d =
     d\<lparr>d_status := u_status args,
       d_errorMessage :=
         (case u_errorMessage args of None \<Rightarrow> d_errorMessage d | Some m \<Rightarrow> Some m)\<rparr>"

definition updateDeploymentStatus :: "auth \<Rightarrow> update_deployment_args \<Rightarrow> db \<Rightarrow> failure + db" where
  "updateDeploymentStatus a args s =
     (case a of
        None \<Rightarrow> Inl NotAuthenticated
      | Some u \<Rightarrow>
          (case db_get (deployments s) (u_deploymentId args) of
             None \<Rightarrow> Inl DeploymentAccessDenied
           | Some d \<Rightarrow>
               if d_userId d \<noteq> u then Inl DeploymentAccessDenied
               else Inr (s\<lparr>deployments :=
                            db_patch (deployments s) (u_deploymentId args)
                              (deployment_updates args)\<rparr>)))"

definition deleteDeployment :: "auth \<Rightarrow> deployment_id \<Rightarrow> db \<Rightarrow> failure + db" where
  "deleteDeployment a deploymentId s =
     (case a of
        None \<Rightarrow> Inl NotAuthenticated
      | Some u \<Rightarrow>
          (case db_get (deployments s) deploymentId of
             None \<Rightarrow> Inl DeploymentAccessDenied
           | Some d \<Rightarrow>
               if d_userId d \<noteq> u then Inl DeploymentAccessDenied
               else Inr (schedule (DestroyWordPress deploymentId)
                          (s\<lparr>deployments :=
                               db_patch (deployments s) deploymentId
                                 (\<lambda>d. d\<lparr>d_status := Stopped\<rparr>)\<rparr>))))"

text \<open>The handler of \<^verbatim>\<open>deleteDeploymentRecord\<close> never asks who calls: the caller's
  identity is in its context and is not read.\<close>

definition deleteDeploymentRecord :: "auth \<Rightarrow> deployment_id \<Rightarrow> db \<Rightarrow> failure + db" where
  "deleteDeploymentRecord a deploymentId s =
     (case db_delete (deployments s) deploymentId of
        Inl e \<Rightarrow> Inl e
      | Inr t \<Rightarrow> Inr (s\<lparr>deployments := t\<rparr>))"

subsection \<open>Actions\<close>

definition deployWordPress_catch :: "auth \<Rightarrow> deployment_id \<Rightarrow> failure \<Rightarrow> db \<Rightarrow> event list \<Rightarrow> action_result" where
  "deployWordPress_catch a deploymentId e s tr =
     (let args = \<lparr>u_deploymentId = deploymentId, u_status = ErrorD,
                  u_errorMessage = Some (message e)\<rparr>
      in case updateDeploymentStatus a args s of
           Inl e' \<Rightarrow> (Inl e', s, tr @ [Run (UpdateDeploymentStatus args)])
         | Inr s' \<Rightarrow> (Inr (), s', tr @ [Run (UpdateDeploymentStatus args)]))"

text \<open>Steps 1 to 3 of \<^verbatim>\<open>deployWordPress\<close> are comments; the \<^verbatim>\<open>if\<close> on \<^verbatim>\<open>sslEnabled\<close> and
  \<^verbatim>\<open>domain\<close> has an empty body.\<close>

definition deployWordPress :: "auth \<Rightarrow> deployment_id \<Rightarrow> db \<Rightarrow> action_result" where
  "deployWordPress a deploymentId s =
     (let args = \<lparr>u_deploymentId = deploymentId, u_status = Running,
                  u_errorMessage = None\<rparr>
      in case getDeployment a deploymentId s of
           Inl e \<Rightarrow> deployWordPress_catch a deploymentId e s [Run (GetDeployment deploymentId)]
         | Inr None \<Rightarrow>
             deployWordPress_catch a deploymentId DeploymentNotFound s
               [Run (GetDeployment deploymentId)]
         | Inr (Some d) \<Rightarrow>
             (case updateDeploymentStatus a args s of
                Inl e \<Rightarrow>
                  deployWordPress_catch a deploymentId e s
                    [Run (GetDeployment deploymentId), Sleep 2000,
                     Run (UpdateDeploymentStatus args)]
              | Inr s' \<Rightarrow>
                  (Inr (), s',
                   [Run (GetDeployment deploymentId), Sleep 2000,
                    Run (UpdateDeploymentStatus args)])))"

definition destroyWordPress :: "auth \<Rightarrow> deployment_id \<Rightarrow> db \<Rightarrow> action_result" where
  "destroyWordPress a deploymentId s =
     (case deleteDeploymentRecord a deploymentId s of
        Inr s' \<Rightarrow> (Inr (), s', [Run (DeleteDeploymentRecord deploymentId)])
      | Inl e \<Rightarrow>
          (case deleteDeploymentRecord a deploymentId s of
             Inr s' \<Rightarrow>
               (Inr (), s',
                [Run (DeleteDeploymentRecord deploymentId),
                 ConsoleError ''Error destroying WordPress deployment:'',
                 Run (DeleteDeploymentRecord deploymentId)])
           | Inl e' \<Rightarrow>
               (Inl e', s,
                [Run (DeleteDeploymentRecord deploymentId),
                 ConsoleError ''Error destroying WordPress deployment:'',
                 Run (DeleteDeploymentRecord deploymentId)])))"

text \<open>Which functions a client can call: \<^verbatim>\<open>query\<close>, \<^verbatim>\<open>mutation\<close> and \<^verbatim>\<open>action\<close> export a
  public function, \<^verbatim>\<open>internalQuery\<close>, \<^verbatim>\<open>internalMutation\<close> and \<^verbatim>\<open>internalAction\<close> one that
  only other functions and the scheduler can call.\<close>

datatype visibility = Public | Internal

datatype function_name =
  F_getUserServers | F_getServer | F_createServer | F_updateServerStatus | F_deleteServer
  | F_provisionServer | F_destroyServer | F_deleteServerRecord
  | F_getUserDeployments | F_getDeployment | F_createDeployment | F_updateDeploymentStatus
  | F_deleteDeployment | F_deployWordPress | F_destroyWordPress | F_deleteDeploymentRecord

fun exported_as :: "function_name \<Rightarrow> visibility" where
  "exported_as F_getUserServers = Public"
| "exported_as F_getServer = Internal"
| "exported_as F_createServer = Public"
| "exported_as F_updateServerStatus = Internal"
| "exported_as F_deleteServer = Public"
| "exported_as F_provisionServer = Internal"
| "exported_as F_destroyServer = Internal"
| "exported_as F_deleteServerRecord = Internal"
| "exported_as F_getUserDeployments = Public"
| "exported_as F_getDeployment = Public"
| "exported_as F_createDeployment = Public"
| "exported_as F_updateDeploymentStatus = Public"
| "exported_as F_deleteDeployment = Public"
| "exported_as F_deployWordPress = Public"
| "exported_as F_destroyWordPress = Public"
| "exported_as F_deleteDeploymentRecord = Public"

section \<open>Validating credentials\<close>

text \<open>
  \<^verbatim>\<open>validateApiKeys\<close> exists twice in the repository. The one that makes real API calls
  takes the provider's answer from \<^verbatim>\<open>fetch\<close>, a parameter here: the response to a
  request, or nothing when the call throws. The other one, in
  \<^verbatim>\<open>packages/backend/convex/apiKeys.ts\<close>, is the placeholder that looks at the format of
  the key only. A JavaScript string is truthy when it is not empty. A request is its
  URL, its method and its \<^verbatim>\<open>Authorization\<close> header (the \<^verbatim>\<open>Content-Type\<close> header is the
  same in every request); \<^verbatim>\<open>.length\<close> is the length of the string.
\<close>

record http_response =
  p_ok :: bool
  p_status :: nat

type_synonym fetch = "http_request \<Rightarrow> http_response option"

record validate_args =
  v_hetznerApiKey :: "string option"
  v_dokployApiKey :: "string option"
  v_dokployUrl :: "string option"

record validation =
  hetznerValid :: bool
  dokployValid :: bool
  errors :: "string list"

definition truthy :: "string option \<Rightarrow> bool" where
  "truthy x = (case x of None \<Rightarrow> False | Some str \<Rightarrow> str \<noteq> [])"

definition hetzner_request :: "string \<Rightarrow> http_request" where
  "hetzner_request key =
     \<lparr>q_url = ''https://api.hetzner.cloud/v1/locations'', q_method = ''GET'',
      q_authorization = ''Bearer '' @ key\<rparr>"

definition dokploy_request :: "string \<Rightarrow> string \<Rightarrow> http_request" where
  "dokploy_request url key =
     (let baseUrl = (if url \<noteq> [] \<and> last url = CHR ''/'' then butlast url else url)
      in \<lparr>q_url = baseUrl @ ''/api/auth/profile'', q_method = ''GET'',
          q_authorization = ''Bearer '' @ key\<rparr>)"

text \<open>The state of the handler's three variables and its trace, threaded through the
  two \<^verbatim>\<open>if\<close> blocks.\<close>

definition validate_hetzner :: "fetch \<Rightarrow> validate_args \<Rightarrow> validation \<times> event list \<Rightarrow> validation \<times> event list" where
  "validate_hetzner fetch args st =
     (if truthy (v_hetznerApiKey args) then
        (let req = hetzner_request (the (v_hetznerApiKey args)) in
         case fetch req of
           None \<Rightarrow>
             ((fst st)\<lparr>errors := errors (fst st) @ [''Failed to connect to Hetzner API'']\<rparr>,
              snd st @ [Fetch req, ConsoleError ''Hetzner API validation error:''])
         | Some response \<Rightarrow>
             if p_ok response then ((fst st)\<lparr>hetznerValid := True\<rparr>, snd st @ [Fetch req])
             else if p_status response = 401 then
               ((fst st)\<lparr>errors := errors (fst st) @
                   [''Invalid Hetzner API key - authentication failed'']\<rparr>,
                snd st @ [Fetch req])
             else
               ((fst st)\<lparr>errors := errors (fst st) @
                   [''Failed to validate Hetzner API key - API error'']\<rparr>,
                snd st @ [Fetch req]))
      else st)"

definition validate_dokploy :: "fetch \<Rightarrow> validate_args \<Rightarrow> validation \<times> event list \<Rightarrow> validation \<times> event list" where
  "validate_dokploy fetch args st =
     (if truthy (v_dokployApiKey args) \<and> truthy (v_dokployUrl args) then
        (let req = dokploy_request (the (v_dokployUrl args)) (the (v_dokployApiKey args)) in
         case fetch req of
           None \<Rightarrow>
             ((fst st)\<lparr>errors := errors (fst st) @
                 [''Failed to connect to Dokploy API - check URL and network connectivity'']\<rparr>,
              snd st @ [Fetch req, ConsoleError ''Dokploy API validation error:''])
         | Some response \<Rightarrow>
             if p_ok response then ((fst st)\<lparr>dokployValid := True\<rparr>, snd st @ [Fetch req])
             else if p_status response = 401 then
               ((fst st)\<lparr>errors := errors (fst st) @
                   [''Invalid Dokploy API key - authentication failed'']\<rparr>,
                snd st @ [Fetch req])
             else
               ((fst st)\<lparr>errors := errors (fst st) @
                   [''Failed to validate Dokploy API key - API error'']\<rparr>,
                snd st @ [Fetch req]))
      else st)"

definition validateApiKeys :: "fetch \<Rightarrow> validate_args \<Rightarrow> validation \<times> event list" where
  "validateApiKeys fetch args =
     validate_dokploy fetch args
       (validate_hetzner fetch args
          (\<lparr>hetznerValid = False, dokployValid = False, errors = []\<rparr>, []))"

text \<open>The placeholder of \<^verbatim>\<open>packages/backend/convex/apiKeys.ts\<close>: no call, no trace.\<close>

definition validateApiKeys_placeholder :: "validate_args \<Rightarrow> validation \<times> event list" where
  "validateApiKeys_placeholder args =
     (let st0 = \<lparr>hetznerValid = False, dokployValid = False, errors = []\<rparr>;
          st1 = (if truthy (v_hetznerApiKey args) then
                   (if length (the (v_hetznerApiKey args)) > 10
                    then st0\<lparr>hetznerValid := True\<rparr>
                    else st0\<lparr>errors := errors st0 @ [''Invalid Hetzner API key format'']\<rparr>)
                 else st0);
          st2 = (if truthy (v_dokployApiKey args) \<and> truthy (v_dokployUrl args) then
                   (if length (the (v_dokployApiKey args)) > 10
                       \<and> take 4 (the (v_dokployUrl args)) = ''http''
                    then st1\<lparr>dokployValid := True\<rparr>
                    else st1\<lparr>errors := errors st1 @
                           [''Invalid Dokploy API key or URL format'']\<rparr>)
                 else st1)
      in (st2, []))"

text \<open>What a successful run of \<^verbatim>\<open>provisionServer\<close> makes of a record: the composition
  of its three status writes.\<close>

definition provisioned :: "server \<Rightarrow> server" where
  "provisioned v =
     v\<lparr>s_status := Ready, s_ipAddress := Some ''192.168.1.100'',
       s_hetznerServerId := ''placeholder-server-id'', s_dokployInstalled := True\<rparr>"

section \<open>The mutations as steps of the store\<close>

text \<open>
  Every mutation of the servers and deployments modules, with its arguments. An action
  is a sequence of such calls (and of queries), so every store the system can be in is
  reached by a sequence of them.
\<close>

datatype mutation =
  M_createServer string string
  | M_updateServerStatus update_server_args
  | M_deleteServer server_id
  | M_deleteServerRecord server_id
  | M_createDeployment create_deployment_args
  | M_updateDeploymentStatus update_deployment_args
  | M_deleteDeployment deployment_id
  | M_deleteDeploymentRecord deployment_id

fun run_mutation :: "auth \<Rightarrow> int \<Rightarrow> mutation \<Rightarrow> db \<Rightarrow> failure + db" where
  "run_mutation a now (M_createServer name region) s =
     (case createServer a name region now s of Inl e \<Rightarrow> Inl e | Inr p \<Rightarrow> Inr (snd p))"
| "run_mutation a now (M_updateServerStatus args) s = updateServerStatus a args s"
| "run_mutation a now (M_deleteServer serverId) s = deleteServer a serverId s"
| "run_mutation a now (M_deleteServerRecord serverId) s = deleteServerRecord serverId s"
| "run_mutation a now (M_createDeployment args) s =
     (case createDeployment a args now s of Inl e \<Rightarrow> Inl e | Inr p \<Rightarrow> Inr (snd p))"
| "run_mutation a now (M_updateDeploymentStatus args) s = updateDeploymentStatus a args s"
| "run_mutation a now (M_deleteDeployment deploymentId) s = deleteDeployment a deploymentId s"
| "run_mutation a now (M_deleteDeploymentRecord deploymentId) s =
     deleteDeploymentRecord a deploymentId s"

fun mutation_name :: "mutation \<Rightarrow> function_name" where
  "mutation_name (M_createServer name region) = F_createServer"
| "mutation_name (M_updateServerStatus args) = F_updateServerStatus"
| "mutation_name (M_deleteServer serverId) = F_deleteServer"
| "mutation_name (M_deleteServerRecord serverId) = F_deleteServerRecord"
| "mutation_name (M_createDeployment args) = F_createDeployment"
| "mutation_name (M_updateDeploymentStatus args) = F_updateDeploymentStatus"
| "mutation_name (M_deleteDeployment deploymentId) = F_deleteDeployment"
| "mutation_name (M_deleteDeploymentRecord deploymentId) = F_deleteDeploymentRecord"

text \<open>
  The stores the system can reach from the empty one, whatever the order in which the
  mutations are called (the calls of several actions may interleave). The mutations of
  the apiKeys module are not spelled out: they write the \<^verbatim>\<open>apiKeys\<close> table only and may
  take fresh ids, which the second rule allows in any way; the last rule lets the
  scheduler change its queue in any way.
\<close>

definition empty_db :: db where
  "empty_db = \<lparr>servers = [], deployments = [], apiKeys = [], scheduled = [], nextId = 0\<rparr>"

inductive reachable :: "db \<Rightarrow> bool" where
  reachable_empty: "reachable empty_db"
| reachable_keys: "reachable s \<Longrightarrow> nextId s \<le> n \<Longrightarrow> reachable (s\<lparr>apiKeys := t, nextId := n\<rparr>)"
| reachable_mutation: "reachable s \<Longrightarrow> run_mutation a now m s = Inr s' \<Longrightarrow> reachable s'"
| reachable_queue: "reachable s \<Longrightarrow> reachable (s\<lparr>scheduled := q\<rparr>)"

text \<open>
  What the mutations keep true of the store: ids are not shared within a table and are
  below \<open>nextId\<close>, and a deployment's server, while it exists, has the deployment's
  owner (\<^verbatim>\<open>createDeployment\<close> checks it, and nothing changes a \<^verbatim>\<open>userId\<close> or a
  \<^verbatim>\<open>serverId\<close>).
\<close>

definition wf_db :: "db \<Rightarrow> bool" where
  "wf_db s =
     (distinct (map fst (servers s)) \<and> distinct (map fst (deployments s))
      \<and> list_all (\<lambda>p. server_num (fst p) < nextId s) (servers s)
      \<and> list_all (\<lambda>p. deployment_num (fst p) < nextId s
            \<and> server_num (d_serverId (snd p)) < nextId s
            \<and> (case db_get (servers s) (d_serverId (snd p)) of
                  None \<Rightarrow> True
                | Some v \<Rightarrow> s_userId v = d_userId (snd p))) (deployments s))"

section \<open>The system with its scheduler\<close>

text \<open>
  A step of the system: a client calls a public mutation or a public action, with its
  identity or with none; or the scheduler takes a job off its queue and runs it, with
  whatever identity the platform gives the run; or the apiKeys module writes its table.
  An action runs to its end within its step. \<open>runs h s\<close>: the steps \<open>h\<close>, taken from
  the empty store in this order, lead to the store \<open>s\<close>.
\<close>

fun job_name :: "job \<Rightarrow> function_name" where
  "job_name (ProvisionServer serverId) = F_provisionServer"
| "job_name (DestroyServer serverId) = F_destroyServer"
| "job_name (DeployWordPress deploymentId) = F_deployWordPress"
| "job_name (DestroyWordPress deploymentId) = F_destroyWordPress"

fun run_job :: "auth \<Rightarrow> job \<Rightarrow> db \<Rightarrow> db" where
  "run_job a (ProvisionServer serverId) s = fst (snd (provisionServer a serverId s))"
| "run_job a (DestroyServer serverId) s = fst (snd (destroyServer a serverId s))"
| "run_job a (DeployWordPress deploymentId) s = fst (snd (deployWordPress a deploymentId s))"
| "run_job a (DestroyWordPress deploymentId) s = fst (snd (destroyWordPress a deploymentId s))"

datatype label =
  KeysModule
  | Client auth int mutation
  | ClientAction auth job
  | Scheduler auth job

inductive step :: "db \<Rightarrow> label \<Rightarrow> db \<Rightarrow> bool" where
  step_keys: "nextId s \<le> n \<Longrightarrow> step s KeysModule (s\<lparr>apiKeys := t, nextId := n\<rparr>)"
| step_client:
    "exported_as (mutation_name m) = Public \<Longrightarrow> run_mutation a now m s = Inr s' \<Longrightarrow>
     step s (Client a now m) s'"
| step_client_action:
    "exported_as (job_name j) = Public \<Longrightarrow> step s (ClientAction a j) (run_job a j s)"
| step_scheduler:
    "j \<in> set (scheduled s) \<Longrightarrow>
     step s (Scheduler a j) (run_job a j (s\<lparr>scheduled := remove1 j (scheduled s)\<rparr>))"

inductive runs :: "label list \<Rightarrow> db \<Rightarrow> bool" where
  runs_empty: "runs [] empty_db"
| runs_step: "runs h s \<Longrightarrow> step s l s' \<Longrightarrow> runs (h @ [l]) s'"

text \<open>What the steps keep true of the servers: a record that is \<^verbatim>\<open>ready\<close> holds the three
  values that \<^verbatim>\<open>provisionServer\<close> writes.\<close>

definition ready_as_provisioned :: "db \<Rightarrow> bool" where
  "ready_as_provisioned s =
     list_all (\<lambda>p. s_status (snd p) \<noteq> Ready \<or> provisioned (snd p) = snd p) (servers s)"

section \<open>The lifecycle of the specification\<close>

text \<open>
  The specification's lifecycle, in its own words: created, provisioning, ready or
  failed; ready, deprovisioning, deleted. \<open>spec_state\<close> reads a record of the code as
  a state of that lifecycle: \<^verbatim>\<open>installing\<close> and \<^verbatim>\<open>configuring\<close> are both provisioning, and
  a record that is gone is deleted.
\<close>

datatype lifecycle = Created | Provisioning | IsReady | Failed | Deprovisioning | Deleted




section \<open>Example stores\<close>

definition alice_keys :: api_keys where
  "alice_keys =
     \<lparr>k_userId = ''alice'', k_hetznerApiKey = Some ''hetzner-key'',
      k_dokployApiKey = Some ''dokploy-key'', k_dokployUrl = Some ''https://dokploy.test/'',
      k_isHetznerValid = True, k_isDokployValid = True, k_lastValidated = Some 5\<rparr>"

definition bob_keys :: api_keys where
  "bob_keys =
     \<lparr>k_userId = ''bob'', k_hetznerApiKey = Some ''hetzner-key-2'',
      k_dokployApiKey = None, k_dokployUrl = None,
      k_isHetznerValid = True, k_isDokployValid = False, k_lastValidated = Some 6\<rparr>"

text \<open>Two users have stored and validated their keys; nothing else has happened.\<close>

definition keys_db :: db where
  "keys_db =
     \<lparr>servers = [], deployments = [], apiKeys = [(KeysId 0, alice_keys), (KeysId 1, bob_keys)],
      scheduled = [], nextId = 2\<rparr>"

definition alice_server :: "server_status \<Rightarrow> server" where
  "alice_server st =
     \<lparr>s_userId = ''alice'', s_hetznerServerId = [], s_name = ''web'', s_ipAddress = None,
      s_status = st, s_region = ''fsn1'', s_sshKeyId = None, s_dokployInstalled = False,
      s_createdAt = 10, s_errorMessage = None\<rparr>"

text \<open>The server with the fields that a successful run of \<^verbatim>\<open>provisionServer\<close> writes.\<close>

definition alice_provisioned :: "server_status \<Rightarrow> server" where
  "alice_provisioned st =
     \<lparr>s_userId = ''alice'', s_hetznerServerId = ''placeholder-server-id'', s_name = ''web'',
      s_ipAddress = Some ''192.168.1.100'', s_status = st, s_region = ''fsn1'',
      s_sshKeyId = None, s_dokployInstalled = True, s_createdAt = 10,
      s_errorMessage = None\<rparr>"

definition alice_deployment :: "deployment_status \<Rightarrow> deployment" where
  "alice_deployment st =
     \<lparr>d_userId = ''alice'', d_serverId = ServerId 2, d_name = ''blog'', d_domain = None,
      d_status = st, d_wordpressAdminUser = ''admin'', d_wordpressAdminPass = ''secret'',
      d_sslEnabled = False, d_createdAt = 20, d_errorMessage = None\<rparr>"

text \<open>The store with one server of alice's, and what was scheduled so far.\<close>

definition one_server :: "server \<Rightarrow> job list \<Rightarrow> db" where
  "one_server v js =
     \<lparr>servers = [(ServerId 2, v)], deployments = [], apiKeys = [(KeysId 0, alice_keys), (KeysId 1, bob_keys)],
      scheduled = js, nextId = 3\<rparr>"

text \<open>The same store after the server's record was deleted.\<close>

definition one_server_gone :: "job list \<Rightarrow> db" where
  "one_server_gone js =
     \<lparr>servers = [], deployments = [], apiKeys = [(KeysId 0, alice_keys), (KeysId 1, bob_keys)],
      scheduled = js, nextId = 3\<rparr>"

definition one_deployment :: "deployment \<Rightarrow> job list \<Rightarrow> db" where
  "one_deployment d js =
     \<lparr>servers = [(ServerId 2, alice_provisioned Ready)], deployments = [(DeploymentId 3, d)],
      apiKeys = [(KeysId 0, alice_keys), (KeysId 1, bob_keys)], scheduled = js, nextId = 4\<rparr>"

definition bob_server :: server where
  "bob_server =
     \<lparr>s_userId = ''bob'', s_hetznerServerId = [], s_name = ''db'', s_ipAddress = None,
      s_status = Creating, s_region = ''nbg1'', s_sshKeyId = None,
      s_dokployInstalled = False, s_createdAt = 30, s_errorMessage = None\<rparr>"

text \<open>The store after alice made a server and a deployment on it and bob made a server,
  with the deployments it holds now.\<close>

definition two_users :: "(deployment_id \<times> deployment) list \<Rightarrow> db" where
  "two_users ds =
     \<lparr>servers = [(ServerId 2, alice_provisioned Ready), (ServerId 4, bob_server)],
      deployments = ds,
      apiKeys = [(KeysId 0, alice_keys), (KeysId 1, bob_keys)],
      scheduled =
        [ProvisionServer (ServerId 2), DeployWordPress (DeploymentId 3),
         ProvisionServer (ServerId 4)],
      nextId = 5\<rparr>"

text \<open>A provider that answers every request with 401.\<close>

definition fetch_401 :: fetch where
  "fetch_401 req = Some \<lparr>p_ok = False, p_status = 401\<rparr>"

section \<open>Lemmas about the primitives\<close>

lemma map_of_db_patch:
  "map_of (db_patch t i f) k = (if k = i then map_option f (map_of t i) else map_of t k)"
  by (induction t) (auto simp: db_patch_def)

lemma db_get_patch:
  "db_get (db_patch t i f) k = (if k = i then map_option f (db_get t i) else db_get t k)"
  by (simp add: db_get_def map_of_db_patch)

lemma db_patch_patch: "db_patch (db_patch t i f) i g = db_patch t i (g \<circ> f)"
  by (induction t) (auto simp: db_patch_def)

lemma map_of_filter_neq:
  "map_of (filter (\<lambda>(k, v). k \<noteq> i) t) k = (if k = i then None else map_of t k)"
  by (induction t) auto

lemma db_get_filter:
  "db_get (filter (\<lambda>(k, v). k \<noteq> i) t) k = (if k = i then None else db_get t k)"
  by (simp add: db_get_def map_of_filter_neq)

lemma db_delete_some:
  "db_get t i = Some v \<Longrightarrow> db_delete t i = Inr (filter (\<lambda>(k, v). k \<noteq> i) t)"
  by (simp add: db_delete_def db_get_def)


lemma db_get_append:
  "db_get (t @ [(k, v)]) j =
     (case db_get t j of None \<Rightarrow> (if j = k then Some v else None) | Some w \<Rightarrow> Some w)"
  by (simp add: db_get_def map_add_def split: option.splits)

lemma db_get_SomeD: "db_get t i = Some v \<Longrightarrow> (i, v) \<in> set t"
  by (simp add: db_get_def map_of_SomeD)

lemma map_fst_db_patch [simp]: "map fst (db_patch t i f) = map fst t"
  by (induction t) (auto simp: db_patch_def)

lemma set_db_patch:
  "set (db_patch t i f) = (\<lambda>p. if fst p = i then (fst p, f (snd p)) else p) ` set t"
proof -
  have "(\<lambda>(k, v). if k = i then (k, f v) else (k, v))
      = (\<lambda>p. if fst p = i then (fst p, f (snd p)) else p)"
    by (rule ext) (simp add: case_prod_beta)
  then show ?thesis
    unfolding db_patch_def by (simp only: set_map)
qed

lemma distinct_fst_filter: "distinct (map fst t) \<Longrightarrow> distinct (map fst (filter P t))"
  by (simp add: distinct_map_filter)

text \<open>A patch that leaves the one document of its id as it is leaves the table as it is.\<close>

lemma db_patch_same:
  assumes "distinct (map fst t)" and "db_get t i = Some v" and "f v = v"
  shows "db_patch t i f = t"
proof -
  have "\<And>p. p \<in> set t \<Longrightarrow> (case p of (k, w) \<Rightarrow> if k = i then (k, f w) else (k, w)) = p"
  proof -
    fix p assume p: "p \<in> set t"
    obtain k w where kw: "p = (k, w)" by (cases p)
    show "(case p of (k, w) \<Rightarrow> if k = i then (k, f w) else (k, w)) = p"
    proof (cases "k = i")
      case True
      with p kw assms(1,2) have "w = v"
        by (simp add: db_get_def)
      with True kw assms(3) show ?thesis by simp
    next
      case False
      with kw show ?thesis by simp
    qed
  qed
  then show ?thesis
    unfolding db_patch_def by (simp add: map_idI)
qed

section \<open>Lemmas about the handlers\<close>

lemma updateServerStatus_owner:
  "db_get (servers s) (a_serverId args) = Some v \<Longrightarrow>
   updateServerStatus (Some (s_userId v)) args s =
     Inr (s\<lparr>servers := db_patch (servers s) (a_serverId args) (server_updates args)\<rparr>)"
  by (simp add: updateServerStatus_def)

lemma updateServerStatus_Inr:
  "updateServerStatus a args s = Inr s' \<Longrightarrow>
   \<exists>v. a = Some (s_userId v) \<and> db_get (servers s) (a_serverId args) = Some v
     \<and> s' = s\<lparr>servers := db_patch (servers s) (a_serverId args) (server_updates args)\<rparr>"
  by (auto simp: updateServerStatus_def split: option.splits if_splits)

text \<open>Whether \<^verbatim>\<open>updateServerStatus\<close> is refused, and with which error, depends on the
  caller and on the record of the id only, not on what is to be written.\<close>

lemma updateServerStatus_refused:
  "updateServerStatus a args s = Inl e \<Longrightarrow> a_serverId args' = a_serverId args \<Longrightarrow>
   updateServerStatus a args' s = Inl e"
  by (auto simp: updateServerStatus_def split: option.splits if_splits)

lemma s_userId_server_updates [simp]: "s_userId (server_updates args v) = s_userId v"
  by (simp add: server_updates_def)

lemma provision_steps:
  "server_updates \<lparr>a_serverId = i, a_status = Ready, a_ipAddress = None,
       a_hetznerServerId = None, a_errorMessage = None, a_dokployInstalled = Some True\<rparr>
   \<circ> (server_updates \<lparr>a_serverId = i, a_status = Configuring, a_ipAddress = None,
       a_hetznerServerId = None, a_errorMessage = None, a_dokployInstalled = None\<rparr>
   \<circ> server_updates \<lparr>a_serverId = i, a_status = Installing,
       a_ipAddress = Some ''192.168.1.100'',
       a_hetznerServerId = Some ''placeholder-server-id'',
       a_errorMessage = None, a_dokployInstalled = None\<rparr>) = provisioned"
  by (rule ext) (simp add: server_updates_def provisioned_def)

lemma provisionServer_owner:
  assumes "db_get (servers s) i = Some v"
  shows "provisionServer (Some (s_userId v)) i s =
     (Inr (), s\<lparr>servers := db_patch (servers s) i provisioned\<rparr>,
      [Run (UpdateServerStatus \<lparr>a_serverId = i, a_status = Installing,
              a_ipAddress = Some ''192.168.1.100'',
              a_hetznerServerId = Some ''placeholder-server-id'',
              a_errorMessage = None, a_dokployInstalled = None\<rparr>),
       Sleep 1000,
       Run (UpdateServerStatus \<lparr>a_serverId = i, a_status = Configuring, a_ipAddress = None,
              a_hetznerServerId = None, a_errorMessage = None, a_dokployInstalled = None\<rparr>),
       Run (UpdateServerStatus \<lparr>a_serverId = i, a_status = Ready, a_ipAddress = None,
              a_hetznerServerId = None, a_errorMessage = None,
              a_dokployInstalled = Some True\<rparr>)])"
  using assms
  by (simp add: provisionServer_def updateServerStatus_def db_get_patch db_patch_patch
      provision_steps)

text \<open>
  The \<^verbatim>\<open>try\<close> block of \<^verbatim>\<open>provisionServer\<close> throws only where its first status write is
  refused, and the status write of the \<^verbatim>\<open>catch\<close> block is then refused with the same
  error: the action ends with this error, the store as it was, and nothing scheduled.
\<close>

lemma provisionServer_refused:
  assumes "updateServerStatus a
      \<lparr>a_serverId = i, a_status = Installing, a_ipAddress = Some ''192.168.1.100'',
       a_hetznerServerId = Some ''placeholder-server-id'', a_errorMessage = None,
       a_dokployInstalled = None\<rparr> s = Inl e"
  shows "provisionServer a i s =
     (Inl e, s,
      [Run (UpdateServerStatus \<lparr>a_serverId = i, a_status = Installing,
              a_ipAddress = Some ''192.168.1.100'',
              a_hetznerServerId = Some ''placeholder-server-id'',
              a_errorMessage = None, a_dokployInstalled = None\<rparr>),
       Run (UpdateServerStatus \<lparr>a_serverId = i, a_status = Error, a_ipAddress = None,
              a_hetznerServerId = None, a_errorMessage = Some (message e),
              a_dokployInstalled = None\<rparr>)])"
proof -
  have "updateServerStatus a
      \<lparr>a_serverId = i, a_status = Error, a_ipAddress = None, a_hetznerServerId = None,
       a_errorMessage = Some (message e), a_dokployInstalled = None\<rparr> s = Inl e"
    by (rule updateServerStatus_refused [OF assms]) simp
  with assms show ?thesis
    by (simp add: provisionServer_def provisionServer_catch_def)
qed

lemma provisionServer_cases:
  "(\<exists>v. db_get (servers s) i = Some v \<and> a = Some (s_userId v)
       \<and> fst (provisionServer a i s) = Inr ()
       \<and> fst (snd (provisionServer a i s)) = s\<lparr>servers := db_patch (servers s) i provisioned\<rparr>)
   \<or> (\<exists>e. updateServerStatus a
         \<lparr>a_serverId = i, a_status = Installing, a_ipAddress = Some ''192.168.1.100'',
          a_hetznerServerId = Some ''placeholder-server-id'', a_errorMessage = None,
          a_dokployInstalled = None\<rparr> s = Inl e
       \<and> fst (provisionServer a i s) = Inl e \<and> fst (snd (provisionServer a i s)) = s)"
proof (cases "updateServerStatus a
    \<lparr>a_serverId = i, a_status = Installing, a_ipAddress = Some ''192.168.1.100'',
     a_hetznerServerId = Some ''placeholder-server-id'', a_errorMessage = None,
     a_dokployInstalled = None\<rparr> s")
  case (Inl e)
  from provisionServer_refused [OF Inl] Inl show ?thesis by simp
next
  case (Inr s1)
  from updateServerStatus_Inr [OF Inr] obtain v where "a = Some (s_userId v)"
    and "db_get (servers s) i = Some v"
    by auto
  with provisionServer_owner [of s i v] show ?thesis by simp
qed

lemma updateDeploymentStatus_owner:
  "db_get (deployments s) (u_deploymentId args) = Some d \<Longrightarrow>
   updateDeploymentStatus (Some (d_userId d)) args s =
     Inr (s\<lparr>deployments :=
            db_patch (deployments s) (u_deploymentId args) (deployment_updates args)\<rparr>)"
  by (simp add: updateDeploymentStatus_def)


text \<open>The store an action leaves is the store it found, or the store that one of its
  mutation calls left.\<close>

lemma destroyServer_cases:
  "fst (snd (destroyServer a i s)) = s
   \<or> (\<exists>v. db_get (servers s) i = Some v
        \<and> fst (snd (destroyServer a i s))
            = s\<lparr>servers := filter (\<lambda>(k, v). k \<noteq> i) (servers s)\<rparr>)"
  by (auto simp: destroyServer_def destroyServer_catch_def getServer_def
      deleteServerRecord_def db_delete_def db_get_def split: option.splits sum.splits)

lemma deployWordPress_cases:
  "fst (snd (deployWordPress a i s)) = s
   \<or> (\<exists>d. db_get (deployments s) i = Some d \<and> a = Some (d_userId d)
        \<and> fst (snd (deployWordPress a i s))
            = s\<lparr>deployments := db_patch (deployments s) i
                 (deployment_updates
                    \<lparr>u_deploymentId = i, u_status = Running, u_errorMessage = None\<rparr>)\<rparr>)"
  by (auto simp: deployWordPress_def deployWordPress_catch_def getDeployment_def
      updateDeploymentStatus_def Let_def split: option.splits sum.splits)

lemma destroyWordPress_cases:
  "fst (snd (destroyWordPress a i s)) = s
   \<or> (\<exists>d. db_get (deployments s) i = Some d
        \<and> fst (snd (destroyWordPress a i s))
            = s\<lparr>deployments := filter (\<lambda>(k, v). k \<noteq> i) (deployments s)\<rparr>)"
  by (auto simp: destroyWordPress_def deleteDeploymentRecord_def db_delete_def db_get_def
      split: option.splits sum.splits)

lemma run_mutation_cases:
  assumes "run_mutation a now m s = Inr s'"
  shows "(\<exists>name region u doc. m = M_createServer name region \<and> a = Some u
            \<and> s_userId doc = u \<and> s_status doc = Creating
            \<and> servers s' = servers s @ [(ServerId (nextId s), doc)]
            \<and> deployments s' = deployments s \<and> nextId s' = Suc (nextId s)
            \<and> scheduled s' = scheduled s @ [ProvisionServer (ServerId (nextId s))])
    \<or> (\<exists>args v. m = M_updateServerStatus args \<and> a = Some (s_userId v)
            \<and> db_get (servers s) (a_serverId args) = Some v
            \<and> servers s' = db_patch (servers s) (a_serverId args) (server_updates args)
            \<and> deployments s' = deployments s \<and> nextId s' = nextId s
            \<and> scheduled s' = scheduled s)
    \<or> (\<exists>i v. m = M_deleteServer i \<and> a = Some (s_userId v)
            \<and> db_get (servers s) i = Some v
            \<and> servers s' = db_patch (servers s) i (\<lambda>v. v\<lparr>s_status := Deleting\<rparr>)
            \<and> deployments s' = deployments s \<and> nextId s' = nextId s
            \<and> scheduled s' = scheduled s @ [DestroyServer i])
    \<or> (\<exists>i v. m = M_deleteServerRecord i \<and> db_get (servers s) i = Some v
            \<and> servers s' = filter (\<lambda>(k, v). k \<noteq> i) (servers s)
            \<and> deployments s' = deployments s \<and> nextId s' = nextId s
            \<and> scheduled s' = scheduled s)
    \<or> (\<exists>args v doc. m = M_createDeployment args \<and> a = Some (s_userId v)
            \<and> db_get (servers s) (c_serverId args) = Some v
            \<and> d_userId doc = s_userId v \<and> d_serverId doc = c_serverId args
            \<and> d_status doc = Deploying
            \<and> deployments s' = deployments s @ [(DeploymentId (nextId s), doc)]
            \<and> servers s' = servers s \<and> nextId s' = Suc (nextId s)
            \<and> scheduled s' = scheduled s @ [DeployWordPress (DeploymentId (nextId s))])
    \<or> (\<exists>args d. m = M_updateDeploymentStatus args \<and> a = Some (d_userId d)
            \<and> db_get (deployments s) (u_deploymentId args) = Some d
            \<and> deployments s' =
                db_patch (deployments s) (u_deploymentId args) (deployment_updates args)
            \<and> servers s' = servers s \<and> nextId s' = nextId s
            \<and> scheduled s' = scheduled s)
    \<or> (\<exists>i d. m = M_deleteDeployment i \<and> a = Some (d_userId d)
            \<and> db_get (deployments s) i = Some d
            \<and> deployments s' = db_patch (deployments s) i (\<lambda>d. d\<lparr>d_status := Stopped\<rparr>)
            \<and> servers s' = servers s \<and> nextId s' = nextId s
            \<and> scheduled s' = scheduled s @ [DestroyWordPress i])
    \<or> (\<exists>i d. m = M_deleteDeploymentRecord i \<and> db_get (deployments s) i = Some d
            \<and> deployments s' = filter (\<lambda>(k, v). k \<noteq> i) (deployments s)
            \<and> servers s' = servers s \<and> nextId s' = nextId s
            \<and> scheduled s' = scheduled s)"
proof (cases m)
  case (M_createServer name region)
  with assms show ?thesis
    by (auto simp: createServer_def schedule_def Let_def
        split: option.splits sum.splits if_splits)
next
  case (M_updateServerStatus args)
  with assms show ?thesis
    by (auto simp: updateServerStatus_def split: option.splits if_splits)
next
  case (M_deleteServer i)
  with assms show ?thesis
    by (auto simp: deleteServer_def schedule_def split: option.splits if_splits)
next
  case (M_deleteServerRecord i)
  with assms show ?thesis
    by (auto simp: deleteServerRecord_def db_delete_def db_get_def
        split: option.splits sum.splits)
next
  case (M_createDeployment args)
  with assms show ?thesis
    by (auto simp: createDeployment_def schedule_def Let_def
        split: option.splits sum.splits if_splits)
next
  case (M_updateDeploymentStatus args)
  with assms show ?thesis
    by (auto simp: updateDeploymentStatus_def split: option.splits if_splits)
next
  case (M_deleteDeployment i)
  with assms show ?thesis
    by (auto simp: deleteDeployment_def schedule_def split: option.splits if_splits)
next
  case (M_deleteDeploymentRecord i)
  with assms show ?thesis
    by (auto simp: deleteDeploymentRecord_def db_delete_def db_get_def
        split: option.splits sum.splits)
qed

section \<open>The invariants of the store\<close>

lemma wf_db_iff:
  "wf_db s \<longleftrightarrow>
     distinct (map fst (servers s)) \<and> distinct (map fst (deployments s))
     \<and> (\<forall>p \<in> set (servers s). server_num (fst p) < nextId s)
     \<and> (\<forall>p \<in> set (deployments s). deployment_num (fst p) < nextId s
          \<and> server_num (d_serverId (snd p)) < nextId s
          \<and> (\<forall>v. db_get (servers s) (d_serverId (snd p)) = Some v
                \<longrightarrow> s_userId v = d_userId (snd p)))"
  by (auto simp: wf_db_def list_all_iff split: option.splits)

lemma wf_db_run_mutation:
  assumes "wf_db s" and "run_mutation a now m s = Inr s'"
  shows "wf_db s'"
  using run_mutation_cases [OF assms(2)]
proof (elim disjE exE conjE)
  fix name region u doc
  assume "servers s' = servers s @ [(ServerId (nextId s), doc)]"
    "deployments s' = deployments s" "nextId s' = Suc (nextId s)"
  with assms(1) show ?thesis
    by (fastforce simp: wf_db_iff db_get_append split: option.splits)
next
  fix args v
  assume "servers s' = db_patch (servers s) (a_serverId args) (server_updates args)"
    "deployments s' = deployments s" "nextId s' = nextId s"
  with assms(1) show ?thesis
    by (fastforce simp: wf_db_iff db_get_patch set_db_patch split: if_splits)
next
  fix i v
  assume "servers s' = db_patch (servers s) i (\<lambda>v. v\<lparr>s_status := Deleting\<rparr>)"
    "deployments s' = deployments s" "nextId s' = nextId s"
  with assms(1) show ?thesis
    by (fastforce simp: wf_db_iff db_get_patch set_db_patch split: if_splits)
next
  fix i v
  assume "servers s' = filter (\<lambda>(k, v). k \<noteq> i) (servers s)"
    "deployments s' = deployments s" "nextId s' = nextId s"
  with assms(1) show ?thesis
    by (fastforce simp: wf_db_iff db_get_filter distinct_fst_filter split: if_splits)
next
  fix args v doc
  assume "db_get (servers s) (c_serverId args) = Some v"
    "d_userId doc = s_userId v" "d_serverId doc = c_serverId args"
    "deployments s' = deployments s @ [(DeploymentId (nextId s), doc)]"
    "servers s' = servers s" "nextId s' = Suc (nextId s)"
  with assms(1) db_get_SomeD [of "servers s" "c_serverId args" v] show ?thesis
    by (fastforce simp: wf_db_iff)
next
  fix args d
  assume "deployments s' =
      db_patch (deployments s) (u_deploymentId args) (deployment_updates args)"
    "servers s' = servers s" "nextId s' = nextId s"
  with assms(1) show ?thesis
    by (fastforce simp: wf_db_iff set_db_patch deployment_updates_def split: if_splits)
next
  fix i d
  assume "deployments s' = db_patch (deployments s) i (\<lambda>d. d\<lparr>d_status := Stopped\<rparr>)"
    "servers s' = servers s" "nextId s' = nextId s"
  with assms(1) show ?thesis
    by (fastforce simp: wf_db_iff set_db_patch split: if_splits)
next
  fix i d
  assume "deployments s' = filter (\<lambda>(k, v). k \<noteq> i) (deployments s)"
    "servers s' = servers s" "nextId s' = nextId s"
  with assms(1) show ?thesis
    by (fastforce simp: wf_db_iff distinct_fst_filter)
qed

lemma reachable_wf_db: "reachable s \<Longrightarrow> wf_db s"
proof (induction rule: reachable.induct)
  case reachable_empty
  show ?case by (simp add: wf_db_def empty_db_def)
next
  case (reachable_keys s n t)
  then show ?case by (fastforce simp: wf_db_iff)
next
  case (reachable_mutation s a now m s')
  then show ?case by (blast intro: wf_db_run_mutation)
next
  case (reachable_queue s q)
  then show ?case by (simp add: wf_db_def)
qed

text \<open>Every store the system with its scheduler reaches is reachable by mutation calls.\<close>

lemma provisioned_as_update:
  "server_updates \<lparr>a_serverId = i, a_status = Ready, a_ipAddress = Some ''192.168.1.100'',
       a_hetznerServerId = Some ''placeholder-server-id'', a_errorMessage = None,
       a_dokployInstalled = Some True\<rparr> = provisioned"
  by (rule ext) (simp add: server_updates_def provisioned_def)

lemma reachable_run_job:
  assumes "reachable s"
  shows "reachable (run_job a j s)"
proof (cases j)
  case (ProvisionServer i)
  from provisionServer_cases [of s i a] show ?thesis
  proof (elim disjE exE conjE)
    fix v assume v: "db_get (servers s) i = Some v" and a: "a = Some (s_userId v)"
      and r: "fst (snd (provisionServer a i s))
          = s\<lparr>servers := db_patch (servers s) i provisioned\<rparr>"
    have "run_mutation a 0
        (M_updateServerStatus \<lparr>a_serverId = i, a_status = Ready,
           a_ipAddress = Some ''192.168.1.100'',
           a_hetznerServerId = Some ''placeholder-server-id'', a_errorMessage = None,
           a_dokployInstalled = Some True\<rparr>) s
        = Inr (s\<lparr>servers := db_patch (servers s) i provisioned\<rparr>)"
      using v a by (simp add: updateServerStatus_def provisioned_as_update)
    with assms have "reachable (s\<lparr>servers := db_patch (servers s) i provisioned\<rparr>)"
      by (rule reachable_mutation)
    with r ProvisionServer show ?thesis by simp
  next
    fix e assume "fst (snd (provisionServer a i s)) = s"
    with assms ProvisionServer show ?thesis by simp
  qed
next
  case (DestroyServer i)
  from destroyServer_cases [of a i s] show ?thesis
  proof (elim disjE exE conjE)
    assume "fst (snd (destroyServer a i s)) = s"
    with assms DestroyServer show ?thesis by simp
  next
    fix v assume v: "db_get (servers s) i = Some v"
      and r: "fst (snd (destroyServer a i s))
          = s\<lparr>servers := filter (\<lambda>(k, v). k \<noteq> i) (servers s)\<rparr>"
    have "run_mutation a 0 (M_deleteServerRecord i) s
        = Inr (s\<lparr>servers := filter (\<lambda>(k, v). k \<noteq> i) (servers s)\<rparr>)"
      by (simp add: deleteServerRecord_def db_delete_some [OF v])
    with assms have "reachable (s\<lparr>servers := filter (\<lambda>(k, v). k \<noteq> i) (servers s)\<rparr>)"
      by (rule reachable_mutation)
    with r DestroyServer show ?thesis by simp
  qed
next
  case (DeployWordPress i)
  from deployWordPress_cases [of a i s] show ?thesis
  proof (elim disjE exE conjE)
    assume "fst (snd (deployWordPress a i s)) = s"
    with assms DeployWordPress show ?thesis by simp
  next
    fix d assume d: "db_get (deployments s) i = Some d" and a: "a = Some (d_userId d)"
      and r: "fst (snd (deployWordPress a i s))
          = s\<lparr>deployments := db_patch (deployments s) i
                 (deployment_updates
                    \<lparr>u_deploymentId = i, u_status = Running, u_errorMessage = None\<rparr>)\<rparr>"
    have "run_mutation a 0
        (M_updateDeploymentStatus
           \<lparr>u_deploymentId = i, u_status = Running, u_errorMessage = None\<rparr>) s
        = Inr (s\<lparr>deployments := db_patch (deployments s) i
                 (deployment_updates
                    \<lparr>u_deploymentId = i, u_status = Running, u_errorMessage = None\<rparr>)\<rparr>)"
      using d a by (simp add: updateDeploymentStatus_def)
    with assms have "reachable (s\<lparr>deployments := db_patch (deployments s) i
                 (deployment_updates
                    \<lparr>u_deploymentId = i, u_status = Running, u_errorMessage = None\<rparr>)\<rparr>)"
      by (rule reachable_mutation)
    with r DeployWordPress show ?thesis by simp
  qed
next
  case (DestroyWordPress i)
  from destroyWordPress_cases [of a i s] show ?thesis
  proof (elim disjE exE conjE)
    assume "fst (snd (destroyWordPress a i s)) = s"
    with assms DestroyWordPress show ?thesis by simp
  next
    fix d assume d: "db_get (deployments s) i = Some d"
      and r: "fst (snd (destroyWordPress a i s))
          = s\<lparr>deployments := filter (\<lambda>(k, v). k \<noteq> i) (deployments s)\<rparr>"
    have "run_mutation a 0 (M_deleteDeploymentRecord i) s
        = Inr (s\<lparr>deployments := filter (\<lambda>(k, v). k \<noteq> i) (deployments s)\<rparr>)"
      by (simp add: deleteDeploymentRecord_def db_delete_some [OF d])
    with assms
    have "reachable (s\<lparr>deployments := filter (\<lambda>(k, v). k \<noteq> i) (deployments s)\<rparr>)"
      by (rule reachable_mutation)
    with r DestroyWordPress show ?thesis by simp
  qed
qed

lemma reachable_step: "step s l s' \<Longrightarrow> reachable s \<Longrightarrow> reachable s'"
proof (induction rule: step.induct)
  case (step_keys s n t)
  then show ?case by (simp add: reachable_keys)
next
  case (step_client m a now s s')
  then show ?case by (blast intro: reachable_mutation)
next
  case (step_client_action j s a)
  then show ?case by (simp add: reachable_run_job)
next
  case (step_scheduler j s a)
  then show ?case by (simp add: reachable_run_job reachable_queue)
qed

lemma runs_reachable: "runs h s \<Longrightarrow> reachable s"
  by (induction rule: runs.induct) (auto intro: reachable_empty reachable_step)

lemma runs_wf_db: "runs h s \<Longrightarrow> wf_db s"
  by (simp add: runs_reachable reachable_wf_db)

text \<open>An action schedules nothing.\<close>

lemma run_job_scheduled: "scheduled (run_job a j s) = scheduled s"
proof (cases j)
  case (ProvisionServer i)
  with provisionServer_cases [of s i a] show ?thesis by auto
next
  case (DestroyServer i)
  with destroyServer_cases [of a i s] show ?thesis by auto
next
  case (DeployWordPress i)
  with deployWordPress_cases [of a i s] show ?thesis by auto
next
  case (DestroyWordPress i)
  with destroyWordPress_cases [of a i s] show ?thesis by auto
qed

text \<open>What an action does to the record of a server: nothing, or it is
  \<^verbatim>\<open>provisionServer\<close> for this server and rewrites it, or it is \<^verbatim>\<open>destroyServer\<close> for
  this server and removes it.\<close>

lemma run_job_server:
  "db_get (servers (run_job a j s)) i = db_get (servers s) i
   \<or> (j = ProvisionServer i
        \<and> db_get (servers (run_job a j s)) i = map_option provisioned (db_get (servers s) i))
   \<or> (j = DestroyServer i \<and> db_get (servers (run_job a j s)) i = None)"
proof (cases j)
  case (ProvisionServer k)
  with provisionServer_cases [of s k a] show ?thesis
    by (auto simp: db_get_patch split: if_splits)
next
  case (DestroyServer k)
  with destroyServer_cases [of a k s] show ?thesis
    by (auto simp: db_get_filter split: if_splits)
next
  case (DeployWordPress k)
  with deployWordPress_cases [of a k s] show ?thesis by auto
next
  case (DestroyWordPress k)
  with destroyWordPress_cases [of a k s] show ?thesis by auto
qed

text \<open>A job \<^verbatim>\<open>destroyServer\<close> is in the queue only after a client's \<^verbatim>\<open>deleteServer\<close> for
  the same server went through.\<close>

lemma runs_destroy_scheduled:
  "runs h s \<Longrightarrow> DestroyServer i \<in> set (scheduled s) \<Longrightarrow>
   \<exists>u now. Client (Some u) now (M_deleteServer i) \<in> set h"
proof (induction arbitrary: rule: runs.induct)
  case runs_empty
  then show ?case by (simp add: empty_db_def)
next
  case (runs_step h s l s')
  from runs_step.hyps(2) runs_step.prems runs_step.IH show ?case
  proof (induction rule: step.induct)
    case (step_keys s n t)
    then show ?case by auto
  next
    case (step_client m a now s s')
    from run_mutation_cases [OF step_client.hyps(2)] step_client.prems show ?case
      by (elim disjE exE conjE) auto
  next
    case (step_client_action j s a)
    then show ?case by (auto simp: run_job_scheduled)
  next
    case (step_scheduler j s a)
    then show ?case
      by (auto simp: run_job_scheduled dest: notin_set_remove1)
  qed
qed

text \<open>A step under which the record of a server disappears is the scheduler's run of
  \<^verbatim>\<open>destroyServer\<close> for this server.\<close>

lemma step_removes_server:
  assumes "step s l s'" and "db_get (servers s) i = Some v"
    and "db_get (servers s') i = None"
  shows "\<exists>a. l = Scheduler a (DestroyServer i)"
  using assms
proof (induction rule: step.induct)
  case (step_keys s n t)
  then show ?case by simp
next
  case (step_client m a now s s')
  from run_mutation_cases [OF step_client.hyps(2)] step_client.hyps(1) step_client.prems
  show ?case
    by (elim disjE exE conjE)
      (auto simp: db_get_patch db_get_append split: option.splits if_splits)
next
  case (step_client_action j s a)
  with run_job_server [of a j s i] show ?case
    by (cases j) auto
next
  case (step_scheduler j s a)
  with run_job_server [of a j "s\<lparr>scheduled := remove1 j (scheduled s)\<rparr>" i] show ?case
    by auto
qed

lemma run_job_servers:
  "servers (run_job a j s) = servers s
   \<or> (\<exists>i. servers (run_job a j s) = db_patch (servers s) i provisioned)
   \<or> (\<exists>i. servers (run_job a j s) = filter (\<lambda>(k, v). k \<noteq> i) (servers s))"
proof (cases j)
  case (ProvisionServer k)
  with provisionServer_cases [of s k a] show ?thesis by auto
next
  case (DestroyServer k)
  with destroyServer_cases [of a k s] show ?thesis by auto
next
  case (DeployWordPress k)
  with deployWordPress_cases [of a k s] show ?thesis by auto
next
  case (DestroyWordPress k)
  with destroyWordPress_cases [of a k s] show ?thesis by auto
qed

lemma ready_as_provisioned_run_job:
  assumes "ready_as_provisioned s"
  shows "ready_as_provisioned (run_job a j s)"
  using run_job_servers [of a j s] assms
  by (elim disjE exE)
    (auto simp: ready_as_provisioned_def list_all_iff set_db_patch provisioned_def)

lemma runs_ready_as_provisioned: "runs h s \<Longrightarrow> ready_as_provisioned s"
proof (induction rule: runs.induct)
  case runs_empty
  show ?case by (simp add: ready_as_provisioned_def empty_db_def)
next
  case (runs_step h s l s')
  from runs_step.hyps(2) runs_step.IH show ?case
  proof (induction rule: step.induct)
    case (step_keys s n t)
    then show ?case by (simp add: ready_as_provisioned_def)
  next
    case (step_client m a now s s')
    from run_mutation_cases [OF step_client.hyps(2)] step_client.hyps(1) step_client.prems
    show ?case
      by (elim disjE exE conjE)
        (auto simp: ready_as_provisioned_def list_all_iff set_db_patch)
  next
    case (step_client_action j s a)
    then show ?case by (simp add: ready_as_provisioned_run_job)
  next
    case (step_scheduler j s a)
    have "ready_as_provisioned (s\<lparr>scheduled := remove1 j (scheduled s)\<rparr>)"
      using step_scheduler.prems by (simp add: ready_as_provisioned_def)
    then show ?case by (rule ready_as_provisioned_run_job)
  qed
qed

section \<open>The example stores are reached\<close>

lemma step_keys_db: "step empty_db KeysModule keys_db"
proof -
  have "step empty_db KeysModule
      (empty_db\<lparr>apiKeys := [(KeysId 0, alice_keys), (KeysId 1, bob_keys)], nextId := 2\<rparr>)"
    by (rule step_keys) (simp add: empty_db_def)
  then show ?thesis
    by (simp add: empty_db_def keys_db_def)
qed

lemma step_create:
  "step keys_db (Client (Some ''alice'') 10 (M_createServer ''web'' ''fsn1''))
     (one_server (alice_server Creating) [ProvisionServer (ServerId 2)])"
  by (rule step_client)
    (simp_all add: createServer_def keys_db_def by_user_def alice_keys_def bob_keys_def
      schedule_def one_server_def alice_server_def Let_def)

lemma runs_created:
  "runs [KeysModule, Client (Some ''alice'') 10 (M_createServer ''web'' ''fsn1'')]
     (one_server (alice_server Creating) [ProvisionServer (ServerId 2)])"
  using runs_step [OF runs_step [OF runs_empty step_keys_db] step_create] by simp

lemma step_provision:
  "step (one_server (alice_server Creating) [ProvisionServer (ServerId 2)])
     (Scheduler (Some ''alice'') (ProvisionServer (ServerId 2)))
     (one_server (alice_provisioned Ready) [])"
proof -
  let ?s = "one_server (alice_server Creating) [ProvisionServer (ServerId 2)]"
  have "run_job (Some ''alice'') (ProvisionServer (ServerId 2))
      (?s\<lparr>scheduled := remove1 (ProvisionServer (ServerId 2)) (scheduled ?s)\<rparr>)
      = one_server (alice_provisioned Ready) []"
    by (simp add: one_server_def provisionServer_def updateServerStatus_def db_get_def
        db_patch_def server_updates_def alice_server_def alice_provisioned_def Let_def)
  moreover have "ProvisionServer (ServerId 2) \<in> set (scheduled ?s)"
    by (simp add: one_server_def)
  ultimately show ?thesis
    using step_scheduler [of "ProvisionServer (ServerId 2)" ?s "Some ''alice''"] by simp
qed

lemma runs_provisioned:
  "runs [KeysModule, Client (Some ''alice'') 10 (M_createServer ''web'' ''fsn1''),
         Scheduler (Some ''alice'') (ProvisionServer (ServerId 2))]
     (one_server (alice_provisioned Ready) [])"
  using runs_step [OF runs_created step_provision] by simp

lemma step_delete:
  "step (one_server (alice_server Creating) [ProvisionServer (ServerId 2)])
     (Client (Some ''alice'') 0 (M_deleteServer (ServerId 2)))
     (one_server (alice_server Deleting)
        [ProvisionServer (ServerId 2), DestroyServer (ServerId 2)])"
  by (rule step_client)
    (simp_all add: deleteServer_def db_get_def db_patch_def schedule_def one_server_def
      alice_server_def)

lemma runs_deleting:
  "runs [KeysModule, Client (Some ''alice'') 10 (M_createServer ''web'' ''fsn1''),
         Client (Some ''alice'') 0 (M_deleteServer (ServerId 2))]
     (one_server (alice_server Deleting)
        [ProvisionServer (ServerId 2), DestroyServer (ServerId 2)])"
  using runs_step [OF runs_created step_delete] by simp

lemma step_destroy:
  "step (one_server (alice_server Deleting)
           [ProvisionServer (ServerId 2), DestroyServer (ServerId 2)])
     (Scheduler None (DestroyServer (ServerId 2)))
     (one_server_gone [ProvisionServer (ServerId 2)])"
proof -
  let ?s = "one_server (alice_server Deleting)
      [ProvisionServer (ServerId 2), DestroyServer (ServerId 2)]"
  have "run_job None (DestroyServer (ServerId 2))
      (?s\<lparr>scheduled := remove1 (DestroyServer (ServerId 2)) (scheduled ?s)\<rparr>)
      = one_server_gone [ProvisionServer (ServerId 2)]"
    by (simp add: one_server_def one_server_gone_def destroyServer_def getServer_def
        destroyServer_catch_def deleteServerRecord_def db_delete_def)
  moreover have "DestroyServer (ServerId 2) \<in> set (scheduled ?s)"
    by (simp add: one_server_def)
  ultimately show ?thesis
    using step_scheduler [of "DestroyServer (ServerId 2)" ?s None] by simp
qed
lemma reachable_keys_db: "reachable keys_db"
proof -
  have "reachable
      (empty_db\<lparr>apiKeys := [(KeysId 0, alice_keys), (KeysId 1, bob_keys)], nextId := 2\<rparr>)"
    by (rule reachable_keys [OF reachable_empty]) (simp add: empty_db_def)
  then show ?thesis
    by (simp add: empty_db_def keys_db_def)
qed

lemma reachable_two_users:
  "reachable (two_users [(DeploymentId 3, alice_deployment Deploying)])"
proof -
  let ?s1 = "one_server (alice_server Creating) [ProvisionServer (ServerId 2)]"
  let ?s2 = "one_server (alice_provisioned Ready) [ProvisionServer (ServerId 2)]"
  let ?s3 = "one_deployment (alice_deployment Deploying)
      [ProvisionServer (ServerId 2), DeployWordPress (DeploymentId 3)]"
  have 1: "run_mutation (Some ''alice'') 10 (M_createServer ''web'' ''fsn1'') keys_db
      = Inr ?s1"
    by (simp add: createServer_def keys_db_def by_user_def alice_keys_def bob_keys_def
        schedule_def one_server_def alice_server_def Let_def)
  have 2: "run_mutation (Some ''alice'') 0
      (M_updateServerStatus \<lparr>a_serverId = ServerId 2, a_status = Ready,
         a_ipAddress = Some ''192.168.1.100'',
         a_hetznerServerId = Some ''placeholder-server-id'', a_errorMessage = None,
         a_dokployInstalled = Some True\<rparr>) ?s1 = Inr ?s2"
    by (simp add: updateServerStatus_def db_get_def db_patch_def one_server_def
        alice_server_def alice_provisioned_def server_updates_def)
  have 3: "run_mutation (Some ''alice'') 20
      (M_createDeployment \<lparr>c_serverId = ServerId 2, c_name = ''blog'', c_domain = None,
         c_wordpressAdminUser = ''admin'', c_wordpressAdminPass = ''secret'',
         c_enableSsl = False\<rparr>) ?s2 = Inr ?s3"
    by (simp add: createDeployment_def db_get_def one_server_def one_deployment_def
        alice_provisioned_def by_user_def alice_keys_def bob_keys_def schedule_def
        alice_deployment_def Let_def)
  have 4: "run_mutation (Some ''bob'') 30 (M_createServer ''db'' ''nbg1'') ?s3
      = Inr (two_users [(DeploymentId 3, alice_deployment Deploying)])"
    by (simp add: createServer_def one_deployment_def by_user_def alice_keys_def
        bob_keys_def schedule_def two_users_def bob_server_def Let_def)
  from reachable_keys_db 1 have "reachable ?s1" by (rule reachable_mutation)
  from this 2 have "reachable ?s2" by (rule reachable_mutation)
  from this 3 have "reachable ?s3" by (rule reachable_mutation)
  from this 4 show ?thesis by (rule reachable_mutation)
qed

lemma reachable_two_users_deleted: "reachable (two_users [])"
proof -
  have "run_mutation None 0 (M_deleteDeploymentRecord (DeploymentId 3))
      (two_users [(DeploymentId 3, alice_deployment Deploying)]) = Inr (two_users [])"
    by (simp add: deleteDeploymentRecord_def db_delete_def two_users_def)
  with reachable_two_users show ?thesis by (rule reachable_mutation)
qed

section \<open>A failed provisioning\<close>

text \<open>
  C1: when \<^verbatim>\<open>provisionServer\<close> fails on a store that the system has reached, the run ends
  with the error and the store is as it was before: the record is still there and
  nothing was scheduled. (The status write of the \<^verbatim>\<open>catch\<close> block is refused for the reason
  the write of the \<^verbatim>\<open>try\<close> block was, so the block stops there, before it schedules
  \<^verbatim>\<open>destroyServer\<close>.) From this store, any step that removes a server record is the
  scheduler's run of \<^verbatim>\<open>destroyServer\<close> for that record, and the record's deletion was
  asked for before: an authenticated client has called \<^verbatim>\<open>deleteServer\<close> for it.
\<close>

theorem failed_provisioning_keeps_record:
  assumes "runs h s" and "fst (provisionServer a serverId s) = Inl e"
  shows "provisionServer a serverId s =
       (Inl e, s,
        [Run (UpdateServerStatus \<lparr>a_serverId = serverId, a_status = Installing,
                a_ipAddress = Some ''192.168.1.100'',
                a_hetznerServerId = Some ''placeholder-server-id'',
                a_errorMessage = None, a_dokployInstalled = None\<rparr>),
         Run (UpdateServerStatus \<lparr>a_serverId = serverId, a_status = Error,
                a_ipAddress = None, a_hetznerServerId = None,
                a_errorMessage = Some (message e), a_dokployInstalled = None\<rparr>)])
    \<and> (\<forall>l s' i v. step s l s' \<and> db_get (servers s) i = Some v
            \<and> db_get (servers s') i = None
          \<longrightarrow> (\<exists>a'. l = Scheduler a' (DestroyServer i))
              \<and> (\<exists>u now. Client (Some u) now (M_deleteServer i) \<in> set h))"
proof -
  from provisionServer_cases [of s serverId a] assms(2)
  have "updateServerStatus a
      \<lparr>a_serverId = serverId, a_status = Installing, a_ipAddress = Some ''192.168.1.100'',
       a_hetznerServerId = Some ''placeholder-server-id'', a_errorMessage = None,
       a_dokployInstalled = None\<rparr> s = Inl e"
    by auto
  then have 1: "provisionServer a serverId s =
       (Inl e, s,
        [Run (UpdateServerStatus \<lparr>a_serverId = serverId, a_status = Installing,
                a_ipAddress = Some ''192.168.1.100'',
                a_hetznerServerId = Some ''placeholder-server-id'',
                a_errorMessage = None, a_dokployInstalled = None\<rparr>),
         Run (UpdateServerStatus \<lparr>a_serverId = serverId, a_status = Error,
                a_ipAddress = None, a_hetznerServerId = None,
                a_errorMessage = Some (message e), a_dokployInstalled = None\<rparr>)])"
    by (rule provisionServer_refused)
  have 2: "\<forall>l s' i v. step s l s' \<and> db_get (servers s) i = Some v
            \<and> db_get (servers s') i = None
          \<longrightarrow> (\<exists>a'. l = Scheduler a' (DestroyServer i))
              \<and> (\<exists>u now. Client (Some u) now (M_deleteServer i) \<in> set h)"
  proof (intro allI impI, elim conjE)
    fix l s' i v
    assume st: "step s l s'" and g: "db_get (servers s) i = Some v"
      and n: "db_get (servers s') i = None"
    from step_removes_server [OF st g n] obtain a' where l: "l = Scheduler a' (DestroyServer i)"
      by blast
    with st have "DestroyServer i \<in> set (scheduled s)"
      by (auto elim: step.cases)
    with runs_destroy_scheduled [OF assms(1)] l
    show "(\<exists>a'. l = Scheduler a' (DestroyServer i))
        \<and> (\<exists>u now. Client (Some u) now (M_deleteServer i) \<in> set h)"
      by blast
  qed
  from 1 2 show ?thesis by blast
qed

theorem failed_provisioning_keeps_record_witness:
  "runs [KeysModule, Client (Some ''alice'') 10 (M_createServer ''web'' ''fsn1'')]
     (one_server (alice_server Creating) [ProvisionServer (ServerId 2)])
   \<and> provisionServer None (ServerId 2)
       (one_server (alice_server Creating) [ProvisionServer (ServerId 2)])
     = (Inl NotAuthenticated,
        one_server (alice_server Creating) [ProvisionServer (ServerId 2)],
        [Run (UpdateServerStatus \<lparr>a_serverId = ServerId 2, a_status = Installing,
                a_ipAddress = Some ''192.168.1.100'',
                a_hetznerServerId = Some ''placeholder-server-id'',
                a_errorMessage = None, a_dokployInstalled = None\<rparr>),
         Run (UpdateServerStatus \<lparr>a_serverId = ServerId 2, a_status = Error,
                a_ipAddress = None, a_hetznerServerId = None,
                a_errorMessage = Some ''Not authenticated'', a_dokployInstalled = None\<rparr>)])
   \<and> db_get (servers (one_server (alice_server Creating) [ProvisionServer (ServerId 2)]))
       (ServerId 2) = Some (alice_server Creating)
   \<and> runs [KeysModule, Client (Some ''alice'') 10 (M_createServer ''web'' ''fsn1''),
           Client (Some ''alice'') 0 (M_deleteServer (ServerId 2))]
       (one_server (alice_server Deleting)
          [ProvisionServer (ServerId 2), DestroyServer (ServerId 2)])
   \<and> fst (provisionServer None (ServerId 2)
        (one_server (alice_server Deleting)
           [ProvisionServer (ServerId 2), DestroyServer (ServerId 2)]))
     = Inl NotAuthenticated
   \<and> step (one_server (alice_server Deleting)
             [ProvisionServer (ServerId 2), DestroyServer (ServerId 2)])
       (Scheduler None (DestroyServer (ServerId 2)))
       (one_server_gone [ProvisionServer (ServerId 2)])
   \<and> db_get (servers (one_server (alice_server Deleting)
        [ProvisionServer (ServerId 2), DestroyServer (ServerId 2)])) (ServerId 2)
     = Some (alice_server Deleting)
   \<and> db_get (servers (one_server_gone [ProvisionServer (ServerId 2)])) (ServerId 2) = None
   \<and> Client (Some ''alice'') 0 (M_deleteServer (ServerId 2))
     \<in> set [KeysModule, Client (Some ''alice'') 10 (M_createServer ''web'' ''fsn1''),
            Client (Some ''alice'') 0 (M_deleteServer (ServerId 2))]"
proof -
  let ?s1 = "one_server (alice_server Creating) [ProvisionServer (ServerId 2)]"
  let ?s2 = "one_server (alice_server Deleting)
      [ProvisionServer (ServerId 2), DestroyServer (ServerId 2)]"
  have f1: "fst (provisionServer None (ServerId 2) ?s1) = Inl NotAuthenticated"
    by (simp add: provisionServer_def provisionServer_catch_def updateServerStatus_def)
  have f2: "fst (provisionServer None (ServerId 2) ?s2) = Inl NotAuthenticated"
    by (simp add: provisionServer_def provisionServer_catch_def updateServerStatus_def)
  have g: "db_get (servers ?s1) (ServerId 2) = Some (alice_server Creating)"
    "db_get (servers ?s2) (ServerId 2) = Some (alice_server Deleting)"
    "db_get (servers (one_server_gone [ProvisionServer (ServerId 2)])) (ServerId 2) = None"
    by (simp_all add: db_get_def one_server_def one_server_gone_def)
  from failed_provisioning_keeps_record [OF runs_created f1]
    failed_provisioning_keeps_record [OF runs_deleting f2]
    runs_created runs_deleting f2 step_destroy g
  show ?thesis by simp
qed

section \<open>Who writes the status\<close>

text \<open>
  C2, as amended: among the public mutations, \<^verbatim>\<open>deleteServer\<close> writes the status of its
  caller's own server, to \<^verbatim>\<open>deleting\<close>, and \<^verbatim>\<open>deleteDeployment\<close> the status of its caller's
  own deployment, to \<^verbatim>\<open>stopped\<close>, before they schedule the destruction; no other public
  mutation (\<^verbatim>\<open>updateDeploymentStatus\<close> left aside) changes the status of a record that
  exists before and after it.
\<close>

theorem public_status_writes:
  assumes "run_mutation a now m s = Inr s'"
    and "exported_as (mutation_name m) = Public"
    and "mutation_name m \<noteq> F_updateDeploymentStatus"
  shows "(\<forall>k v v'. db_get (servers s) k = Some v \<and> db_get (servers s') k = Some v'
            \<and> s_status v' \<noteq> s_status v
          \<longrightarrow> m = M_deleteServer k \<and> a = Some (s_userId v) \<and> v' = v\<lparr>s_status := Deleting\<rparr>)
    \<and> (\<forall>k d d'. db_get (deployments s) k = Some d \<and> db_get (deployments s') k = Some d'
            \<and> d_status d' \<noteq> d_status d
          \<longrightarrow> m = M_deleteDeployment k \<and> a = Some (d_userId d)
              \<and> d' = d\<lparr>d_status := Stopped\<rparr>)"
  using run_mutation_cases [OF assms(1)] assms(2,3)
  by (elim disjE exE conjE)
    (auto simp: db_get_patch db_get_append db_get_filter split: option.splits if_splits)

theorem public_status_writes_witness:
  "run_mutation (Some ''alice'') 0 (M_deleteServer (ServerId 2))
      (one_server (alice_provisioned Ready) [])
     = Inr (one_server (alice_provisioned Deleting) [DestroyServer (ServerId 2)])
   \<and> exported_as (mutation_name (M_deleteServer (ServerId 2))) = Public
   \<and> mutation_name (M_deleteServer (ServerId 2)) \<noteq> F_updateDeploymentStatus
   \<and> db_get (servers (one_server (alice_provisioned Ready) [])) (ServerId 2)
     = Some (alice_provisioned Ready)
   \<and> db_get (servers
       (one_server (alice_provisioned Deleting) [DestroyServer (ServerId 2)])) (ServerId 2)
     = Some (alice_provisioned Deleting)
   \<and> s_status (alice_provisioned Deleting) \<noteq> s_status (alice_provisioned Ready)
   \<and> alice_provisioned Deleting = (alice_provisioned Ready)\<lparr>s_status := Deleting\<rparr>
   \<and> run_mutation (Some ''alice'') 0 (M_deleteDeployment (DeploymentId 3))
        (one_deployment (alice_deployment Running) [])
     = Inr (one_deployment (alice_deployment Stopped) [DestroyWordPress (DeploymentId 3)])
   \<and> exported_as (mutation_name (M_deleteDeployment (DeploymentId 3))) = Public
   \<and> mutation_name (M_deleteDeployment (DeploymentId 3)) \<noteq> F_updateDeploymentStatus
   \<and> db_get (deployments (one_deployment (alice_deployment Running) [])) (DeploymentId 3)
     = Some (alice_deployment Running)
   \<and> db_get (deployments
       (one_deployment (alice_deployment Stopped) [DestroyWordPress (DeploymentId 3)])) (DeploymentId 3)
     = Some (alice_deployment Stopped)
   \<and> d_status (alice_deployment Stopped) \<noteq> d_status (alice_deployment Running)
   \<and> alice_deployment Stopped = (alice_deployment Running)\<lparr>d_status := Stopped\<rparr>"
proof -
  let ?s = "one_server (alice_provisioned Ready) []"
  let ?s' = "one_server (alice_provisioned Deleting) [DestroyServer (ServerId 2)]"
  let ?t = "one_deployment (alice_deployment Running) []"
  let ?t' = "one_deployment (alice_deployment Stopped) [DestroyWordPress (DeploymentId 3)]"
  have r: "run_mutation (Some ''alice'') 0 (M_deleteServer (ServerId 2)) ?s = Inr ?s'"
    by (simp add: deleteServer_def db_get_def db_patch_def schedule_def one_server_def
        alice_provisioned_def)
  have p: "exported_as (mutation_name (M_deleteServer (ServerId 2))) = Public"
    "mutation_name (M_deleteServer (ServerId 2)) \<noteq> F_updateDeploymentStatus"
    by simp_all
  have g: "db_get (servers ?s) (ServerId 2) = Some (alice_provisioned Ready)"
    "db_get (servers ?s') (ServerId 2) = Some (alice_provisioned Deleting)"
    "s_status (alice_provisioned Deleting) \<noteq> s_status (alice_provisioned Ready)"
    by (simp_all add: db_get_def one_server_def alice_provisioned_def)
  have r2: "run_mutation (Some ''alice'') 0 (M_deleteDeployment (DeploymentId 3)) ?t = Inr ?t'"
    by (simp add: deleteDeployment_def db_get_def db_patch_def schedule_def
        one_deployment_def alice_deployment_def)
  have p2: "exported_as (mutation_name (M_deleteDeployment (DeploymentId 3))) = Public"
    "mutation_name (M_deleteDeployment (DeploymentId 3)) \<noteq> F_updateDeploymentStatus"
    by simp_all
  have g2: "db_get (deployments ?t) (DeploymentId 3) = Some (alice_deployment Running)"
    "db_get (deployments ?t') (DeploymentId 3) = Some (alice_deployment Stopped)"
    "d_status (alice_deployment Stopped) \<noteq> d_status (alice_deployment Running)"
    by (simp_all add: db_get_def one_deployment_def alice_deployment_def)
  from public_status_writes [OF r p] g
  have a: "alice_provisioned Deleting = (alice_provisioned Ready)\<lparr>s_status := Deleting\<rparr>"
    by blast
  from public_status_writes [OF r2 p2] g2
  have b: "alice_deployment Stopped = (alice_deployment Running)\<lparr>d_status := Stopped\<rparr>"
    by blast
  from r p g r2 p2 g2 a b show ?thesis by blast
qed

text \<open>
  The claim as the specification has it fails: the public mutation \<^verbatim>\<open>deleteServer\<close>
  turns the status of a ready server to \<^verbatim>\<open>deleting\<close>, and \<^verbatim>\<open>deleteDeployment\<close> that of a
  running deployment to \<^verbatim>\<open>stopped\<close>.
\<close>

theorem public_deleteServer_writes_status:
  "exported_as F_deleteServer = Public
   \<and> db_get (servers (one_server (alice_provisioned Ready) [])) (ServerId 2)
     = Some (alice_provisioned Ready)
   \<and> deleteServer (Some ''alice'') (ServerId 2) (one_server (alice_provisioned Ready) [])
     = Inr (one_server (alice_provisioned Deleting) [DestroyServer (ServerId 2)])
   \<and> db_get (servers
       (one_server (alice_provisioned Deleting) [DestroyServer (ServerId 2)])) (ServerId 2)
     = Some (alice_provisioned Deleting)
   \<and> s_status (alice_provisioned Ready) = Ready
   \<and> s_status (alice_provisioned Deleting) = Deleting
   \<and> exported_as F_deleteDeployment = Public
   \<and> deleteDeployment (Some ''alice'') (DeploymentId 3)
       (one_deployment (alice_deployment Running) [])
     = Inr (one_deployment (alice_deployment Stopped) [DestroyWordPress (DeploymentId 3)])"
  by (simp add: db_get_def one_server_def deleteServer_def db_patch_def schedule_def
      alice_provisioned_def deleteDeployment_def one_deployment_def alice_deployment_def)

section \<open>Provisioning a server that is ready\<close>

text \<open>
  C3: on every store that the system reaches, a run of \<^verbatim>\<open>provisionServer\<close> on a server whose
  status is \<^verbatim>\<open>ready\<close> leaves the store, and so the record, as it was, whoever runs it. Run
  with the owner's identity it succeeds, with its four steps; the record holds the
  address, the provider id and the flag that the run writes, since only an earlier run
  of \<^verbatim>\<open>provisionServer\<close> can have set the status to \<^verbatim>\<open>ready\<close>.
\<close>

theorem provisionServer_ready_unchanged:
  assumes "runs h s" and "db_get (servers s) serverId = Some v" and "s_status v = Ready"
  shows "fst (snd (provisionServer a serverId s)) = s
    \<and> provisionServer (Some (s_userId v)) serverId s =
       (Inr (), s,
        [Run (UpdateServerStatus \<lparr>a_serverId = serverId, a_status = Installing,
                a_ipAddress = Some ''192.168.1.100'',
                a_hetznerServerId = Some ''placeholder-server-id'',
                a_errorMessage = None, a_dokployInstalled = None\<rparr>),
         Sleep 1000,
         Run (UpdateServerStatus \<lparr>a_serverId = serverId, a_status = Configuring,
                a_ipAddress = None, a_hetznerServerId = None, a_errorMessage = None,
                a_dokployInstalled = None\<rparr>),
         Run (UpdateServerStatus \<lparr>a_serverId = serverId, a_status = Ready,
                a_ipAddress = None, a_hetznerServerId = None, a_errorMessage = None,
                a_dokployInstalled = Some True\<rparr>)])
    \<and> s_ipAddress v = Some ''192.168.1.100''
    \<and> s_hetznerServerId v = ''placeholder-server-id''
    \<and> s_dokployInstalled v"
proof -
  from runs_wf_db [OF assms(1)] have d: "distinct (map fst (servers s))"
    by (simp add: wf_db_iff)
  from runs_ready_as_provisioned [OF assms(1)] db_get_SomeD [OF assms(2)] assms(3)
  have p: "provisioned v = v"
    by (auto simp: ready_as_provisioned_def list_all_iff)
  have same: "s\<lparr>servers := db_patch (servers s) serverId provisioned\<rparr> = s"
    by (simp add: db_patch_same [where f = provisioned, OF d assms(2) p])
  from provisionServer_cases [of s serverId a] same
  have 1: "fst (snd (provisionServer a serverId s)) = s"
    by auto
  have 3: "s_ipAddress v = Some ''192.168.1.100''
      \<and> s_hetznerServerId v = ''placeholder-server-id'' \<and> s_dokployInstalled v"
  proof -
    have "s_ipAddress (provisioned v) = Some ''192.168.1.100''
      \<and> s_hetznerServerId (provisioned v) = ''placeholder-server-id''
      \<and> s_dokployInstalled (provisioned v)"
      by (simp add: provisioned_def)
    with p show ?thesis by simp
  qed
  from provisionServer_owner [OF assms(2)] same 1 3 show ?thesis by simp
qed

theorem provisionServer_ready_unchanged_witness:
  "runs [KeysModule, Client (Some ''alice'') 10 (M_createServer ''web'' ''fsn1''),
         Scheduler (Some ''alice'') (ProvisionServer (ServerId 2))]
     (one_server (alice_provisioned Ready) [])
   \<and> db_get (servers (one_server (alice_provisioned Ready) [])) (ServerId 2)
     = Some (alice_provisioned Ready)
   \<and> s_status (alice_provisioned Ready) = Ready
   \<and> fst (provisionServer (Some ''alice'') (ServerId 2) (one_server (alice_provisioned Ready) []))
     = Inr ()
   \<and> fst (snd (provisionServer (Some ''alice'') (ServerId 2)
        (one_server (alice_provisioned Ready) [])))
     = one_server (alice_provisioned Ready) []
   \<and> fst (snd (provisionServer (Some ''bob'') (ServerId 2)
        (one_server (alice_provisioned Ready) [])))
     = one_server (alice_provisioned Ready) []
   \<and> fst (snd (provisionServer None (ServerId 2) (one_server (alice_provisioned Ready) [])))
     = one_server (alice_provisioned Ready) []"
proof -
  let ?s = "one_server (alice_provisioned Ready) []"
  have g: "db_get (servers ?s) (ServerId 2) = Some (alice_provisioned Ready)"
    by (simp add: db_get_def one_server_def)
  have r: "s_status (alice_provisioned Ready) = Ready"
    "s_userId (alice_provisioned Ready) = ''alice''"
    by (simp_all add: alice_provisioned_def)
  note t = provisionServer_ready_unchanged [OF runs_provisioned g r(1)]
  from t [of "Some ''alice''"] t [of "Some ''bob''"] t [of None] runs_provisioned g r
  show ?thesis by simp
qed

section \<open>Creating a server without a valid credential\<close>

text \<open>
  C4: a create-server request by a user whose stored Hetzner credential is not marked
  valid (or who has stored none) fails at once with the error
  "Valid Hetzner API key required"; the store is left as it was, so the credential is
  still marked invalid, no server record exists that was not there before and no
  provisioning job is scheduled. A mutation makes no provider call.
\<close>

theorem createServer_invalid_credential:
  assumes "unique (by_user k_userId u (apiKeys s)) = Inr keys"
    and "keys = None \<or> (\<exists>k. keys = Some k \<and> k_isHetznerValid (snd k) = False)"
  shows "createServer (Some u) name region now s = Inl HetznerKeyRequired
    \<and> store_after s (createServer (Some u) name region now s) = s
    \<and> unique (by_user k_userId u
          (apiKeys (store_after s (createServer (Some u) name region now s)))) = Inr keys
    \<and> servers (store_after s (createServer (Some u) name region now s)) = servers s
    \<and> scheduled (store_after s (createServer (Some u) name region now s)) = scheduled s"
proof -
  have "createServer (Some u) name region now s = Inl HetznerKeyRequired"
    using assms by (auto simp: createServer_def)
  then show ?thesis
    using assms(1) by (simp add: store_after_def)
qed

theorem createServer_invalid_credential_witness:
  "unique (by_user k_userId ''alice''
      [(KeysId 0, \<lparr>k_userId = ''alice'', k_hetznerApiKey = Some ''key'', k_dokployApiKey = None,
             k_dokployUrl = None, k_isHetznerValid = False, k_isDokployValid = False,
             k_lastValidated = None\<rparr>)])
     = Inr (Some (KeysId 0, \<lparr>k_userId = ''alice'', k_hetznerApiKey = Some ''key'',
             k_dokployApiKey = None, k_dokployUrl = None, k_isHetznerValid = False,
             k_isDokployValid = False, k_lastValidated = None\<rparr>))
   \<and> createServer (Some ''alice'') ''web'' ''fsn1'' 42
       \<lparr>servers = [], deployments = [],
        apiKeys = [(KeysId 0, \<lparr>k_userId = ''alice'', k_hetznerApiKey = Some ''key'',
             k_dokployApiKey = None, k_dokployUrl = None, k_isHetznerValid = False,
             k_isDokployValid = False, k_lastValidated = None\<rparr>)],
        scheduled = [], nextId = 1\<rparr>
     = Inl HetznerKeyRequired"
proof -
  let ?k = "\<lparr>k_userId = ''alice'', k_hetznerApiKey = Some ''key'', k_dokployApiKey = None,
             k_dokployUrl = None, k_isHetznerValid = False, k_isDokployValid = False,
             k_lastValidated = None\<rparr>"
  let ?s = "\<lparr>servers = [], deployments = [], apiKeys = [(KeysId 0, ?k)], scheduled = [],
             nextId = 1\<rparr>"
  have u: "unique (by_user k_userId ''alice'' (apiKeys ?s)) = Inr (Some (KeysId 0, ?k))"
    by (simp add: by_user_def)
  have v: "Some (KeysId 0, ?k) = None
      \<or> (\<exists>k. Some (KeysId 0, ?k) = Some k \<and> k_isHetznerValid (snd k) = False)"
    by simp
  from createServer_invalid_credential [OF u v, of "''web''" "''fsn1''" 42] u
  show ?thesis by simp
qed

section \<open>The transitions of a server's status\<close>




section \<open>The placeholder actions\<close>




section \<open>Validating credentials against the provider\<close>

text \<open>
  C7, as amended: in the \<^verbatim>\<open>validateApiKeys\<close> that makes real API calls, a Hetzner key is
  valid exactly when it is not empty and a GET request to
  \<^verbatim>\<open>https://api.hetzner.cloud/v1/locations\<close> with this key answers ok, and a Dokploy key
  exactly when key and URL are not empty and a GET request to the profile endpoint
  under this URL answers ok; an absent or empty credential is invalid with no call. In
  the placeholder \<^verbatim>\<open>validateApiKeys\<close> of \<^verbatim>\<open>packages/backend/convex/apiKeys.ts\<close> the verdict
  is the format check (more than 10 characters, and a URL that starts with http), with
  no provider call. Neither runs a mutation, so neither persists anything.
\<close>

theorem validateApiKeys_verdicts:
  "hetznerValid (fst (validateApiKeys fetch args))
     = (truthy (v_hetznerApiKey args)
        \<and> (case fetch (hetzner_request (the (v_hetznerApiKey args))) of
              None \<Rightarrow> False | Some response \<Rightarrow> p_ok response))
   \<and> dokployValid (fst (validateApiKeys fetch args))
     = (truthy (v_dokployApiKey args) \<and> truthy (v_dokployUrl args)
        \<and> (case fetch (dokploy_request (the (v_dokployUrl args)) (the (v_dokployApiKey args))) of
              None \<Rightarrow> False | Some response \<Rightarrow> p_ok response))
   \<and> q_method (hetzner_request key) = ''GET''
   \<and> q_url (hetzner_request key) = ''https://api.hetzner.cloud/v1/locations''
   \<and> q_method (dokploy_request url key) = ''GET''
   \<and> (\<forall>c. Run c \<notin> set (snd (validateApiKeys fetch args)))
   \<and> hetznerValid (fst (validateApiKeys_placeholder args))
     = (truthy (v_hetznerApiKey args) \<and> 10 < length (the (v_hetznerApiKey args)))
   \<and> dokployValid (fst (validateApiKeys_placeholder args))
     = (truthy (v_dokployApiKey args) \<and> truthy (v_dokployUrl args)
        \<and> 10 < length (the (v_dokployApiKey args))
        \<and> take 4 (the (v_dokployUrl args)) = ''http'')
   \<and> snd (validateApiKeys_placeholder args) = []"
proof -
  have 1: "hetznerValid (fst (validateApiKeys fetch args))
     = (truthy (v_hetznerApiKey args)
        \<and> (case fetch (hetzner_request (the (v_hetznerApiKey args))) of
              None \<Rightarrow> False | Some response \<Rightarrow> p_ok response))"
    by (simp add: validateApiKeys_def validate_hetzner_def validate_dokploy_def Let_def
        split: option.splits)
  have 2: "dokployValid (fst (validateApiKeys fetch args))
     = (truthy (v_dokployApiKey args) \<and> truthy (v_dokployUrl args)
        \<and> (case fetch (dokploy_request (the (v_dokployUrl args)) (the (v_dokployApiKey args))) of
              None \<Rightarrow> False | Some response \<Rightarrow> p_ok response))"
    by (auto simp: validateApiKeys_def validate_hetzner_def validate_dokploy_def Let_def
        split: option.splits)
  have 3: "\<forall>c. Run c \<notin> set (snd (validateApiKeys fetch args))"
    by (simp add: validateApiKeys_def validate_hetzner_def validate_dokploy_def Let_def
        split: option.splits)
  have 4: "hetznerValid (fst (validateApiKeys_placeholder args))
     = (truthy (v_hetznerApiKey args) \<and> 10 < length (the (v_hetznerApiKey args)))"
    by (simp add: validateApiKeys_placeholder_def Let_def)
  have 5: "dokployValid (fst (validateApiKeys_placeholder args))
     = (truthy (v_dokployApiKey args) \<and> truthy (v_dokployUrl args)
        \<and> 10 < length (the (v_dokployApiKey args))
        \<and> take 4 (the (v_dokployUrl args)) = ''http'')"
    by (auto simp: validateApiKeys_placeholder_def Let_def)
  have 6: "snd (validateApiKeys_placeholder args) = []"
    by (simp add: validateApiKeys_placeholder_def Let_def)
  have 7: "q_method (hetzner_request key) = ''GET''"
    "q_url (hetzner_request key) = ''https://api.hetzner.cloud/v1/locations''"
    "q_method (dokploy_request url key) = ''GET''"
    by (simp_all add: hetzner_request_def dokploy_request_def Let_def)
  show ?thesis
    using 1 2 3 4 5 6 7 by blast
qed

text \<open>
  The claim as the specification has it fails on the placeholder: it finds a key of
  eleven characters valid and makes no call, where the provider answers 401 to this
  key.
\<close>

theorem placeholder_validation_asks_no_provider:
  "validateApiKeys_placeholder
       \<lparr>v_hetznerApiKey = Some ''aaaaaaaaaaa'', v_dokployApiKey = None, v_dokployUrl = None\<rparr>
     = (\<lparr>hetznerValid = True, dokployValid = False, errors = []\<rparr>, [])
   \<and> validateApiKeys fetch_401
       \<lparr>v_hetznerApiKey = Some ''aaaaaaaaaaa'', v_dokployApiKey = None, v_dokployUrl = None\<rparr>
     = (\<lparr>hetznerValid = False, dokployValid = False,
         errors = [''Invalid Hetzner API key - authentication failed'']\<rparr>,
        [Fetch (hetzner_request ''aaaaaaaaaaa'')])"
  by (simp add: validateApiKeys_placeholder_def validateApiKeys_def validate_hetzner_def
      validate_dokploy_def truthy_def fetch_401_def Let_def)

section \<open>Destroying a server that is not there\<close>




section \<open>Deleting a deployment record\<close>

text \<open>
  C9: \<^verbatim>\<open>deleteDeploymentRecord\<close> is exported as a public mutation, and its sibling
  \<^verbatim>\<open>deleteServerRecord\<close> as an internal one. For every caller, with an identity or none,
  owner or not, it deletes the record of the id it is given; the other public mutations
  raise "Not authenticated" for a caller with no identity, and those that take a
  deployment raise "access denied" for a caller who is not its owner.
\<close>

theorem deleteDeploymentRecord_unguarded:
  assumes "db_get (deployments s) deploymentId = Some d"
  shows "exported_as F_deleteDeploymentRecord = Public
    \<and> exported_as F_deleteServerRecord = Internal
    \<and> deleteDeploymentRecord a deploymentId s
        = Inr (s\<lparr>deployments := filter (\<lambda>(k, v). k \<noteq> deploymentId)
            (deployments s)\<rparr>)
    \<and> db_get (filter (\<lambda>(k, v). k \<noteq> deploymentId) (deployments s)) deploymentId = None
    \<and> deleteDeployment None deploymentId s = Inl NotAuthenticated
    \<and> (u \<noteq> d_userId d \<longrightarrow>
         deleteDeployment (Some u) deploymentId s = Inl DeploymentAccessDenied)
    \<and> updateDeploymentStatus None args s = Inl NotAuthenticated
    \<and> (u \<noteq> d_userId d \<longrightarrow>
         updateDeploymentStatus (Some u) (args\<lparr>u_deploymentId := deploymentId\<rparr>) s
           = Inl DeploymentAccessDenied)
    \<and> createDeployment None cargs now s = Inl NotAuthenticated
    \<and> createServer None name region now s = Inl NotAuthenticated
    \<and> deleteServer None serverId s = Inl NotAuthenticated"
  using assms
  by (simp add: deleteDeploymentRecord_def db_delete_some db_get_def map_of_filter_neq
      deleteDeployment_def updateDeploymentStatus_def createDeployment_def createServer_def
      deleteServer_def)

theorem deleteDeploymentRecord_unguarded_witness:
  "db_get (deployments (one_deployment (alice_deployment Running) [])) (DeploymentId 3)
     = Some (alice_deployment Running)
   \<and> deleteDeploymentRecord (Some ''bob'') (DeploymentId 3)
       (one_deployment (alice_deployment Running) [])
     = Inr ((one_deployment (alice_deployment Running) [])\<lparr>deployments := []\<rparr>)
   \<and> deleteDeploymentRecord None (DeploymentId 3)
       (one_deployment (alice_deployment Running) [])
     = Inr ((one_deployment (alice_deployment Running) [])\<lparr>deployments := []\<rparr>)
   \<and> ''bob'' \<noteq> d_userId (alice_deployment Running)
   \<and> deleteDeployment (Some ''bob'') (DeploymentId 3)
       (one_deployment (alice_deployment Running) [])
     = Inl DeploymentAccessDenied"
proof -
  let ?s = "one_deployment (alice_deployment Running) []"
  have h: "db_get (deployments ?s) (DeploymentId 3) = Some (alice_deployment Running)"
    by (simp add: db_get_def one_deployment_def)
  have o: "''bob'' \<noteq> d_userId (alice_deployment Running)"
    by (simp add: alice_deployment_def)
  have f: "filter (\<lambda>(k, v). k \<noteq> (DeploymentId 3)) (deployments ?s) = []"
    by (simp add: one_deployment_def)
  from deleteDeploymentRecord_unguarded [OF h, where a = "Some ''bob''" and u = "''bob''"]
    deleteDeploymentRecord_unguarded [OF h, where a = None and u = "''bob''"] h o f
  show ?thesis by simp
qed

section \<open>What a user sees\<close>

lemma db_get_by_user:
  "distinct (map fst t) \<Longrightarrow>
   db_get (by_user owner u t) i =
     (case db_get t i of None \<Rightarrow> None | Some v \<Rightarrow> if owner v = u then Some v else None)"
proof (induction t)
  case Nil
  show ?case by (simp add: db_get_def by_user_def)
next
  case (Cons p t)
  obtain k v where p: "p = (k, v)" by (cases p)
  from Cons.prems have k: "k \<notin> fst ` set t" and d: "distinct (map fst t)"
    by (auto simp: p)
  have none: "map_of (filter (\<lambda>(k, v). owner v = u) t) k = None"
    using k by (auto simp: map_of_eq_None_iff)
  show ?case
    using Cons.IH [OF d] none
    by (auto simp: p db_get_def by_user_def split: option.splits)
qed

lemma getServer_by_user:
  "distinct (map fst (servers s)) \<Longrightarrow>
   getServer (Some u) i s =
     Inr (map_option (server_detail_of i) (db_get (by_user s_userId u (servers s)) i))"
  by (simp add: getServer_def db_get_by_user split: option.splits)

lemma deployment_row_of_own:
  assumes "wf_db s" and "p \<in> set (deployments s)" and "d_userId (snd p) = u"
  shows "deployment_row_of s p =
     deployment_row_of (empty_db\<lparr>servers := by_user s_userId u (servers s)\<rparr>) p"
proof -
  from assms(1) have d: "distinct (map fst (servers s))"
    by (simp add: wf_db_iff)
  from assms have o: "\<And>v. db_get (servers s) (d_serverId (snd p)) = Some v \<Longrightarrow> s_userId v = u"
    by (auto simp: wf_db_iff)
  have "serverName s (d_serverId (snd p)) =
      serverName (empty_db\<lparr>servers := by_user s_userId u (servers s)\<rparr>) (d_serverId (snd p))"
    using o by (auto simp: serverName_def db_get_by_user [OF d] split: option.splits)
  then show ?thesis
    by (simp add: deployment_row_of_def)
qed

lemma getUserDeployments_by_user:
  assumes "wf_db s"
  shows "getUserDeployments (Some u) s =
     Inr (map (deployment_row_of (empty_db\<lparr>servers := by_user s_userId u (servers s)\<rparr>))
            (by_user d_userId u (deployments s)))"
proof -
  have "map (deployment_row_of s) (by_user d_userId u (deployments s))
      = map (deployment_row_of (empty_db\<lparr>servers := by_user s_userId u (servers s)\<rparr>))
          (by_user d_userId u (deployments s))"
    by (rule map_cong [OF refl], rule deployment_row_of_own [OF assms])
      (auto simp: by_user_def)
  then show ?thesis
    by (simp add: getUserDeployments_def)
qed

lemma getDeployment_by_user:
  assumes "wf_db s"
  shows "getDeployment (Some u) i s =
     Inr (map_option
            (\<lambda>d. deployment_row_of (empty_db\<lparr>servers := by_user s_userId u (servers s)\<rparr>) (i, d))
            (db_get (by_user d_userId u (deployments s)) i))"
proof -
  from assms have d: "distinct (map fst (deployments s))"
    by (simp add: wf_db_iff)
  show ?thesis
  proof (cases "db_get (deployments s) i")
    case None
    then show ?thesis
      by (simp add: getDeployment_def db_get_by_user [OF d])
  next
    case (Some x)
    then have "(i, x) \<in> set (deployments s)"
      by (rule db_get_SomeD)
    from deployment_row_of_own [OF assms this, of "d_userId x"] Some show ?thesis
      by (simp add: getDeployment_def db_get_by_user [OF d])
  qed
qed

text \<open>
  C10: for an authenticated user \<open>u\<close> and a store that the mutations reach,
  \<^verbatim>\<open>getUserServers\<close> and \<^verbatim>\<open>getUserDeployments\<close> return one row for each record whose
  \<^verbatim>\<open>userId\<close> is \<open>u\<close>, in the order of the table, with the fields of the record that the
  row shows (a deployment's row names its server, or \<^verbatim>\<open>Unknown Server\<close>), and nothing
  else; \<^verbatim>\<open>getServer\<close> and \<^verbatim>\<open>getDeployment\<close> return null for a record of another user. On
  two such stores that hold the same servers and deployments of \<open>u\<close>, the four queries
  give \<open>u\<close> the same results: what was added to, removed from or changed in the
  records of other users does not show.
\<close>

theorem queries_show_own_records_only:
  assumes "reachable s" and "reachable s'"
    and "by_user s_userId u (servers s') = by_user s_userId u (servers s)"
    and "by_user d_userId u (deployments s') = by_user d_userId u (deployments s)"
  shows "getUserServers (Some u) s
       = Inr (map (\<lambda>p. \<lparr>r_id = fst p, r_name = s_name (snd p),
                        r_ipAddress = s_ipAddress (snd p), r_status = s_status (snd p),
                        r_region = s_region (snd p),
                        r_dokployInstalled = s_dokployInstalled (snd p),
                        r_createdAt = s_createdAt (snd p),
                        r_errorMessage = s_errorMessage (snd p)\<rparr>)
               (filter (\<lambda>p. s_userId (snd p) = u) (servers s)))
    \<and> getUserDeployments (Some u) s
       = Inr (map (\<lambda>p. \<lparr>w_id = fst p, w_serverId = d_serverId (snd p),
                        w_serverName =
                          (case db_get (servers s) (d_serverId (snd p)) of
                             None \<Rightarrow> ''Unknown Server''
                           | Some v \<Rightarrow> if s_name v = [] then ''Unknown Server'' else s_name v),
                        w_name = d_name (snd p), w_domain = d_domain (snd p),
                        w_status = d_status (snd p),
                        w_wordpressAdminUser = d_wordpressAdminUser (snd p),
                        w_sslEnabled = d_sslEnabled (snd p),
                        w_createdAt = d_createdAt (snd p),
                        w_errorMessage = d_errorMessage (snd p)\<rparr>)
               (filter (\<lambda>p. d_userId (snd p) = u) (deployments s)))
    \<and> (\<forall>i v. db_get (servers s) i = Some v \<and> s_userId v \<noteq> u
          \<longrightarrow> getServer (Some u) i s = Inr None)
    \<and> (\<forall>i d. db_get (deployments s) i = Some d \<and> d_userId d \<noteq> u
          \<longrightarrow> getDeployment (Some u) i s = Inr None)
    \<and> getUserServers (Some u) s' = getUserServers (Some u) s
    \<and> getUserDeployments (Some u) s' = getUserDeployments (Some u) s
    \<and> (\<forall>i. getServer (Some u) i s' = getServer (Some u) i s)
    \<and> (\<forall>i. getDeployment (Some u) i s' = getDeployment (Some u) i s)"
proof -
  have w: "wf_db s" "wf_db s'"
    using assms(1,2) by (simp_all add: reachable_wf_db)
  then have d: "distinct (map fst (servers s))" "distinct (map fst (servers s'))"
    by (simp_all add: wf_db_iff)
  have f: "\<And>owner t. filter (\<lambda>p. owner (snd p) = u) t = by_user owner u t"
    unfolding by_user_def by (rule filter_cong) auto
  have 1: "getUserServers (Some u) s
       = Inr (map (\<lambda>p. \<lparr>r_id = fst p, r_name = s_name (snd p),
                        r_ipAddress = s_ipAddress (snd p), r_status = s_status (snd p),
                        r_region = s_region (snd p),
                        r_dokployInstalled = s_dokployInstalled (snd p),
                        r_createdAt = s_createdAt (snd p),
                        r_errorMessage = s_errorMessage (snd p)\<rparr>)
               (filter (\<lambda>p. s_userId (snd p) = u) (servers s)))"
    by (simp add: getUserServers_def f server_row_of_def [abs_def])
  have 2: "getUserDeployments (Some u) s
       = Inr (map (\<lambda>p. \<lparr>w_id = fst p, w_serverId = d_serverId (snd p),
                        w_serverName =
                          (case db_get (servers s) (d_serverId (snd p)) of
                             None \<Rightarrow> ''Unknown Server''
                           | Some v \<Rightarrow> if s_name v = [] then ''Unknown Server'' else s_name v),
                        w_name = d_name (snd p), w_domain = d_domain (snd p),
                        w_status = d_status (snd p),
                        w_wordpressAdminUser = d_wordpressAdminUser (snd p),
                        w_sslEnabled = d_sslEnabled (snd p),
                        w_createdAt = d_createdAt (snd p),
                        w_errorMessage = d_errorMessage (snd p)\<rparr>)
               (filter (\<lambda>p. d_userId (snd p) = u) (deployments s)))"
    by (simp add: getUserDeployments_def f deployment_row_of_def [abs_def] serverName_def)
  have 3: "\<forall>i v. db_get (servers s) i = Some v \<and> s_userId v \<noteq> u
          \<longrightarrow> getServer (Some u) i s = Inr None"
    by (simp add: getServer_def)
  have 4: "\<forall>i d. db_get (deployments s) i = Some d \<and> d_userId d \<noteq> u
          \<longrightarrow> getDeployment (Some u) i s = Inr None"
    by (simp add: getDeployment_def)
  have 5: "getUserServers (Some u) s' = getUserServers (Some u) s"
    by (simp add: getUserServers_def assms(3))
  have 6: "getUserDeployments (Some u) s' = getUserDeployments (Some u) s"
    by (simp add: getUserDeployments_by_user w assms(3,4))
  have 7: "\<forall>i. getServer (Some u) i s' = getServer (Some u) i s"
    by (simp add: getServer_by_user d assms(3))
  have 8: "\<forall>i. getDeployment (Some u) i s' = getDeployment (Some u) i s"
    by (simp add: getDeployment_by_user w assms(3,4))
  show ?thesis
    using 1 2 3 4 5 6 7 8 by blast
qed

theorem queries_show_own_records_only_witness:
  "reachable (two_users [(DeploymentId 3, alice_deployment Deploying)])
   \<and> reachable (two_users [])
   \<and> by_user s_userId ''bob'' (servers (two_users []))
     = by_user s_userId ''bob''
         (servers (two_users [(DeploymentId 3, alice_deployment Deploying)]))
   \<and> by_user d_userId ''bob'' (deployments (two_users []))
     = by_user d_userId ''bob''
         (deployments (two_users [(DeploymentId 3, alice_deployment Deploying)]))
   \<and> db_get (servers (two_users [(DeploymentId 3, alice_deployment Deploying)])) (ServerId 2)
     = Some (alice_provisioned Ready)
   \<and> s_userId (alice_provisioned Ready) \<noteq> ''bob''
   \<and> getServer (Some ''bob'') (ServerId 2)
       (two_users [(DeploymentId 3, alice_deployment Deploying)]) = Inr None
   \<and> db_get (deployments (two_users [(DeploymentId 3, alice_deployment Deploying)]))
       (DeploymentId 3) = Some (alice_deployment Deploying)
   \<and> d_userId (alice_deployment Deploying) \<noteq> ''bob''
   \<and> getDeployment (Some ''bob'') (DeploymentId 3)
       (two_users [(DeploymentId 3, alice_deployment Deploying)]) = Inr None
   \<and> getUserServers (Some ''bob'') (two_users [])
     = getUserServers (Some ''bob'')
         (two_users [(DeploymentId 3, alice_deployment Deploying)])
   \<and> getUserDeployments (Some ''bob'') (two_users [])
     = getUserDeployments (Some ''bob'')
         (two_users [(DeploymentId 3, alice_deployment Deploying)])
   \<and> getUserServers (Some ''bob'')
       (two_users [(DeploymentId 3, alice_deployment Deploying)])
     = Inr [\<lparr>r_id = ServerId 4, r_name = ''db'', r_ipAddress = None, r_status = Creating,
             r_region = ''nbg1'', r_dokployInstalled = False, r_createdAt = 30,
             r_errorMessage = None\<rparr>]
   \<and> getUserDeployments (Some ''bob'')
       (two_users [(DeploymentId 3, alice_deployment Deploying)]) = Inr []
   \<and> getUserServers (Some ''alice'')
       (two_users [(DeploymentId 3, alice_deployment Deploying)])
     = Inr [\<lparr>r_id = ServerId 2, r_name = ''web'', r_ipAddress = Some ''192.168.1.100'',
             r_status = Ready, r_region = ''fsn1'', r_dokployInstalled = True,
             r_createdAt = 10, r_errorMessage = None\<rparr>]
   \<and> getUserDeployments (Some ''alice'')
       (two_users [(DeploymentId 3, alice_deployment Deploying)])
     = Inr [\<lparr>w_id = DeploymentId 3, w_serverId = ServerId 2, w_serverName = ''web'',
             w_name = ''blog'', w_domain = None, w_status = Deploying,
             w_wordpressAdminUser = ''admin'', w_sslEnabled = False, w_createdAt = 20,
             w_errorMessage = None\<rparr>]"
proof -
  let ?s = "two_users [(DeploymentId 3, alice_deployment Deploying)]"
  let ?s' = "two_users []"
  have a: "by_user s_userId ''bob'' (servers ?s') = by_user s_userId ''bob'' (servers ?s)"
    by (simp add: two_users_def)
  have b: "by_user d_userId ''bob'' (deployments ?s')
      = by_user d_userId ''bob'' (deployments ?s)"
    by (simp add: two_users_def by_user_def alice_deployment_def)
  have g: "db_get (servers ?s) (ServerId 2) = Some (alice_provisioned Ready)"
    "s_userId (alice_provisioned Ready) \<noteq> ''bob''"
    "db_get (deployments ?s) (DeploymentId 3) = Some (alice_deployment Deploying)"
    "d_userId (alice_deployment Deploying) \<noteq> ''bob''"
    by (simp_all add: db_get_def two_users_def alice_provisioned_def alice_deployment_def)
  note q = queries_show_own_records_only [OF reachable_two_users reachable_two_users_deleted a b]
  note r = queries_show_own_records_only [OF reachable_two_users reachable_two_users refl refl,
      of "''alice''"]
  from q g have 1: "getServer (Some ''bob'') (ServerId 2) ?s = Inr None" by blast
  from q g have 2: "getDeployment (Some ''bob'') (DeploymentId 3) ?s = Inr None" by blast
  from q have 3: "getUserServers (Some ''bob'') ?s' = getUserServers (Some ''bob'') ?s"
    "getUserDeployments (Some ''bob'') ?s' = getUserDeployments (Some ''bob'') ?s"
    by blast+
  from q have 4: "getUserServers (Some ''bob'') ?s
     = Inr [\<lparr>r_id = ServerId 4, r_name = ''db'', r_ipAddress = None, r_status = Creating,
             r_region = ''nbg1'', r_dokployInstalled = False, r_createdAt = 30,
             r_errorMessage = None\<rparr>]"
    by (simp add: two_users_def alice_provisioned_def bob_server_def)
  from q have 5: "getUserDeployments (Some ''bob'') ?s = Inr []"
    by (simp add: two_users_def alice_deployment_def)
  from r have 6: "getUserServers (Some ''alice'') ?s
     = Inr [\<lparr>r_id = ServerId 2, r_name = ''web'', r_ipAddress = Some ''192.168.1.100'',
             r_status = Ready, r_region = ''fsn1'', r_dokployInstalled = True,
             r_createdAt = 10, r_errorMessage = None\<rparr>]"
    by (simp add: two_users_def alice_provisioned_def bob_server_def)
  from r have 7: "getUserDeployments (Some ''alice'') ?s
     = Inr [\<lparr>w_id = DeploymentId 3, w_serverId = ServerId 2, w_serverName = ''web'',
             w_name = ''blog'', w_domain = None, w_status = Deploying,
             w_wordpressAdminUser = ''admin'', w_sslEnabled = False, w_createdAt = 20,
             w_errorMessage = None\<rparr>]"
    by (simp add: two_users_def alice_provisioned_def alice_deployment_def db_get_def)
  from reachable_two_users reachable_two_users_deleted a b g 1 2 3 4 5 6 7 show ?thesis
    by blast
qed

end
